theory Spec2Isabelle
  imports Complex_Main "HOL-Library.AList"
begin

section \<open>Calendar days\<close>

text \<open>
  The program handles dates through the JavaScript \<open>Date\<close> object. A date is stored as a
  day-precision ISO string (\<open>YYYY-MM-DD\<close>); such a string is modelled by the number of its
  day, counted from 1970-01-01. The calendar functions below are those of ECMA-262
  (section "Date Objects") on day numbers. Amounts are JavaScript numbers; they are
  modelled as reals, so rounding is outside the model.
\<close>

type_synonym day = int

definition DayFromYear :: "int \<Rightarrow> day" where
  "DayFromYear y =
     365 * (y - 1970) + (y - 1969) div 4 - (y - 1901) div 100 + (y - 1601) div 400"

definition DaysInYear :: "int \<Rightarrow> int" where
  "DaysInYear y =
     (if y mod 4 \<noteq> 0 then 365 else if y mod 100 \<noteq> 0 then 366
      else if y mod 400 \<noteq> 0 then 365 else 366)"

lemma div_step:
  fixes n k :: int
  assumes "0 < k"
  shows "(n + 1) div k = n div k + (if (n + 1) mod k = 0 then 1 else 0)"
proof -
  define q where "q = n div k"
  define r where "r = n mod k"
  have n: "n = k * q + r" and r0: "0 \<le> r" and rk: "r < k"
    using assms by (simp_all add: q_def r_def)
  show ?thesis
  proof (cases "r + 1 < k")
    case True
    have e: "n + 1 = k * q + (r + 1)" using n by simp
    have "(n + 1) div k = q"
      using e r0 True by (intro int_div_pos_eq [of _ _ _ "r + 1"]) auto
    moreover have "(n + 1) mod k = r + 1"
      using e r0 True by (intro int_mod_pos_eq [of _ _ q]) auto
    ultimately show ?thesis using r0 by (simp add: q_def)
  next
    case False
    then have e: "n + 1 = k * (q + 1) + 0" using n rk by (simp add: algebra_simps)
    have "(n + 1) div k = q + 1"
      using e assms by (intro int_div_pos_eq [of _ _ _ 0]) auto
    moreover have "(n + 1) mod k = 0"
      using e assms by (intro int_mod_pos_eq [of _ _ "q + 1"]) auto
    ultimately show ?thesis by (simp add: q_def)
  qed
qed

lemma DayFromYear_Suc: "DayFromYear (y + 1) = DayFromYear y + DaysInYear y"
proof -
  have m4: "(y - 1968) mod 4 = y mod 4"
    using mod_mult_self1 [of y "-492" 4] by simp
  have m100: "(y - 1900) mod 100 = y mod 100"
    using mod_mult_self1 [of y "-19" 100] by simp
  have m400: "(y - 1600) mod 400 = y mod 400"
    using mod_mult_self1 [of y "-4" 400] by simp
  have a: "(y + 1 - 1969) div 4 = (y - 1969) div 4 + (if y mod 4 = 0 then 1 else 0)"
    using div_step [of 4 "y - 1969"] m4 by (simp add: algebra_simps)
  have b: "(y + 1 - 1901) div 100 = (y - 1901) div 100 + (if y mod 100 = 0 then 1 else 0)"
    using div_step [of 100 "y - 1901"] m100 by (simp add: algebra_simps)
  have c: "(y + 1 - 1601) div 400 = (y - 1601) div 400 + (if y mod 400 = 0 then 1 else 0)"
    using div_step [of 400 "y - 1601"] m400 by (simp add: algebra_simps)
  have d: "y mod 100 = 0 \<Longrightarrow> y mod 4 = 0"
    using dvd_trans [of 4 100 y] by (simp add: mod_eq_0_iff_dvd)
  have e: "y mod 400 = 0 \<Longrightarrow> y mod 100 = 0"
    using dvd_trans [of 100 400 y] by (simp add: mod_eq_0_iff_dvd)
  show ?thesis
    unfolding DayFromYear_def DaysInYear_def a b c using d e by auto
qed

lemma DaysInYear_pos: "0 < DaysInYear y"
  by (simp add: DaysInYear_def)

lemma DaysInYear_bounds: "365 \<le> DaysInYear y \<and> DaysInYear y \<le> 366"
  by (simp add: DaysInYear_def)

text \<open>
  \<open>YearFromTime\<close> is specified as the largest year whose first day is not after the given
  day. It is computed by a search from an estimate, first down, then up.
\<close>

function year_down :: "day \<Rightarrow> int \<Rightarrow> int" where
  "year_down d y = (if d < DayFromYear y then year_down d (y - 1) else y)"
  by pat_completeness auto
termination
proof (relation "measure (\<lambda>(d, y). nat (DayFromYear y - d))")
  show "wf (measure (\<lambda>(d, y). nat (DayFromYear y - d)))" by simp
next
  fix d y :: int
  assume "d < DayFromYear y"
  moreover have "DayFromYear (y - 1) < DayFromYear y"
    using DayFromYear_Suc [of "y - 1"] DaysInYear_pos [of "y - 1"] by simp
  ultimately show "((d, y - 1), (d, y)) \<in> measure (\<lambda>(d, y). nat (DayFromYear y - d))"
    by simp
qed

function year_up :: "day \<Rightarrow> int \<Rightarrow> int" where
  "year_up d y = (if DayFromYear (y + 1) \<le> d then year_up d (y + 1) else y)"
  by pat_completeness auto
termination
proof (relation "measure (\<lambda>(d, y). nat (d - DayFromYear y))")
  show "wf (measure (\<lambda>(d, y). nat (d - DayFromYear y)))" by simp
next
  fix d y :: int
  assume "DayFromYear (y + 1) \<le> d"
  moreover have "DayFromYear y < DayFromYear (y + 1)"
    using DayFromYear_Suc [of y] DaysInYear_pos [of y] by simp
  ultimately show "((d, y + 1), (d, y)) \<in> measure (\<lambda>(d, y). nat (d - DayFromYear y))"
    by simp
qed

definition YearFromDay :: "day \<Rightarrow> int" where
  "YearFromDay d = year_up d (year_down d (1970 + d div 365))"

definition InLeapYear :: "day \<Rightarrow> int" where
  "InLeapYear d = (if DaysInYear (YearFromDay d) = 366 then 1 else 0)"

definition DayWithinYear :: "day \<Rightarrow> int" where
  "DayWithinYear d = d - DayFromYear (YearFromDay d)"

text \<open>The day of the year on which month \<open>m\<close> (0 is January) starts; \<open>L\<close> is 1 in a leap year.\<close>

definition month_start :: "int \<Rightarrow> int \<Rightarrow> int" where
  "month_start L m =
     (if m = 0 then 0 else if m = 1 then 31 else if m = 2 then 59 + L
      else if m = 3 then 90 + L else if m = 4 then 120 + L else if m = 5 then 151 + L
      else if m = 6 then 181 + L else if m = 7 then 212 + L else if m = 8 then 243 + L
      else if m = 9 then 273 + L else if m = 10 then 304 + L else 334 + L)"

definition MonthFromDay :: "day \<Rightarrow> int" where
  "MonthFromDay d =
     (let w = DayWithinYear d; L = InLeapYear d in
      if w < 31 then 0 else if w < 59 + L then 1 else if w < 90 + L then 2
      else if w < 120 + L then 3 else if w < 151 + L then 4 else if w < 181 + L then 5
      else if w < 212 + L then 6 else if w < 243 + L then 7 else if w < 273 + L then 8
      else if w < 304 + L then 9 else if w < 334 + L then 10 else 11)"

definition DateFromDay :: "day \<Rightarrow> int" where
  "DateFromDay d = DayWithinYear d - month_start (InLeapYear d) (MonthFromDay d) + 1"

text \<open>
  \<open>MakeDay\<close> accepts any month and day of month: months beyond 0..11 carry into the year
  and a day of month beyond the month's length runs into the following month.
\<close>

definition MakeDay :: "int \<Rightarrow> int \<Rightarrow> int \<Rightarrow> day" where
  "MakeDay year month dt =
     (let ym = year + month div 12; mn = month mod 12 in
      DayFromYear ym + month_start (if DaysInYear ym = 366 then 1 else 0) mn + dt - 1)"

text \<open>The day number of the ISO string of year \<open>y\<close>, month \<open>m\<close> (1 is January), day \<open>d\<close>.\<close>

definition iso_date :: "int \<Rightarrow> int \<Rightarrow> int \<Rightarrow> day" where
  "iso_date y m d = MakeDay y (m - 1) d"

section \<open>Time values and the host time zone\<close>

text \<open>
  A \<open>Date\<close> object holds a time value, the milliseconds since 1970-01-01T00:00:00Z. Part of
  its methods work in UTC (the reading of an ISO date string, \<open>toISOString\<close>) and part in
  the local time of the host (\<open>setMonth\<close>, \<open>setFullYear\<close>, \<open>setHours\<close>, \<open>getMonth\<close>,
  \<open>getFullYear\<close>, \<open>new Date(year, month, day)\<close>). The host time zone is a parameter of
  the model: it gives the offset of local time from UTC, in milliseconds, at a UTC time
  value (ECMA-262's \<open>LocalTZA(t, true)\<close>) and at a local time value
  (\<open>LocalTZA(t, false)\<close>). An offset is less than a day in either direction; the model
  cuts what a host gives to that range.
\<close>

type_synonym time = int

definition msPerDay :: int where
  "msPerDay = 86400000"

definition msPerHour :: int where
  "msPerHour = 3600000"

definition Day :: "time \<Rightarrow> day" where
  "Day t = t div msPerDay"

definition TimeWithinDay :: "time \<Rightarrow> int" where
  "TimeWithinDay t = t mod msPerDay"

definition MakeDate :: "day \<Rightarrow> int \<Rightarrow> time" where
  "MakeDate d tm = d * msPerDay + tm"

record host =
  offset_at_utc :: "time \<Rightarrow> int"
  offset_at_local :: "time \<Rightarrow> int"

definition within_a_day :: "int \<Rightarrow> int" where
  "within_a_day x = max (1 - msPerDay) (min (msPerDay - 1) x)"

definition LocalTime :: "host \<Rightarrow> time \<Rightarrow> time" where
  "LocalTime h t = t + within_a_day (offset_at_utc h t)"

definition UTC :: "host \<Rightarrow> time \<Rightarrow> time" where
  "UTC h t = t - within_a_day (offset_at_local h t)"

text \<open>
  \<open>new Date(s)\<close> for a day-precision ISO string \<open>s\<close> is midnight UTC of that day, and
  \<open>d.toISOString().split('T')[0]\<close> is the ISO string of the UTC day of \<open>d\<close>.
\<close>

definition parse_iso_date :: "day \<Rightarrow> time" where
  "parse_iso_date s = MakeDate s 0"

definition toISOString_date :: "time \<Rightarrow> day" where
  "toISOString_date t = Day t"

text \<open>The local methods, each returning the new time value of the \<open>Date\<close>.\<close>

definition getMonth :: "host \<Rightarrow> time \<Rightarrow> int" where
  "getMonth h t = MonthFromDay (Day (LocalTime h t))"

definition getFullYear :: "host \<Rightarrow> time \<Rightarrow> int" where
  "getFullYear h t = YearFromDay (Day (LocalTime h t))"

definition setMonth :: "host \<Rightarrow> time \<Rightarrow> int \<Rightarrow> time" where
  "setMonth h t m =
     (let lt = LocalTime h t in
      UTC h (MakeDate (MakeDay (YearFromDay (Day lt)) m (DateFromDay (Day lt)))
        (TimeWithinDay lt)))"

definition setFullYear :: "host \<Rightarrow> time \<Rightarrow> int \<Rightarrow> time" where
  "setFullYear h t y =
     (let lt = LocalTime h t in
      UTC h (MakeDate (MakeDay y (MonthFromDay (Day lt)) (DateFromDay (Day lt)))
        (TimeWithinDay lt)))"

text \<open>\<open>d.setHours(0, 0, 0, 0)\<close>: local midnight of the local day of \<open>d\<close>.\<close>

definition setHours0 :: "host \<Rightarrow> time \<Rightarrow> time" where
  "setHours0 h t = UTC h (MakeDate (Day (LocalTime h t)) 0)"

text \<open>
  \<open>new Date(year, month, dt)\<close>: local midnight of that day; the constructor reads a year
  from 0 to 99 as 1900 + year.
\<close>

definition new_Date :: "host \<Rightarrow> int \<Rightarrow> int \<Rightarrow> int \<Rightarrow> time" where
  "new_Date h year month dt =
     UTC h (MakeDate
       (MakeDay (if 0 \<le> year \<and> year \<le> 99 then 1900 + year else year) month dt) 0)"

text \<open>
  Hosts. A host on UTC; a host with one period of daylight saving time, from the UTC time
  value \<open>start\<close> to \<open>end\<close>: a local time skipped or repeated at a transition is read with
  the offset before the transition, as ECMA-262 asks. The rules of Berlin
  (UTC+1, UTC+2 from 2024-03-31T01:00Z to 2024-10-27T01:00Z) and of New York
  (UTC-5, UTC-4 from 2024-03-10T07:00Z to 2024-11-03T06:00Z) for the year 2024; the
  examples that use them stay within that year.
\<close>

definition utc_host :: host where
  "utc_host = \<lparr>offset_at_utc = (\<lambda>t. 0), offset_at_local = (\<lambda>t. 0)\<rparr>"

definition dst_host :: "int \<Rightarrow> int \<Rightarrow> time \<Rightarrow> time \<Rightarrow> host" where
  "dst_host std dst start end =
     \<lparr>offset_at_utc = (\<lambda>t. if start \<le> t \<and> t < end then dst else std),
      offset_at_local = (\<lambda>t. if start + dst \<le> t \<and> t < end + dst then dst else std)\<rparr>"

definition berlin_2024 :: host where
  "berlin_2024 = dst_host msPerHour (2 * msPerHour)
     (MakeDate (iso_date 2024 3 31) msPerHour) (MakeDate (iso_date 2024 10 27) msPerHour)"

definition new_york_2024 :: host where
  "new_york_2024 = dst_host (- 5 * msPerHour) (- 4 * msPerHour)
     (MakeDate (iso_date 2024 3 10) (7 * msPerHour)) (MakeDate (iso_date 2024 11 3) (6 * msPerHour))"

subsection \<open>Facts about the calendar and the clock\<close>

declare year_down.simps [simp del] year_up.simps [simp del]

lemma year_down_le: "DayFromYear (year_down d y) \<le> d"
proof (induction d y rule: year_down.induct)
  case (1 d y)
  then show ?case by (subst year_down.simps) simp
qed

lemma year_up_bounds:
  "DayFromYear y \<le> d \<Longrightarrow>
   DayFromYear (year_up d y) \<le> d \<and> d < DayFromYear (year_up d y + 1)"
proof (induction d y rule: year_up.induct)
  case (1 d y)
  then show ?case by (subst (1 2) year_up.simps) simp
qed

lemma YearFromDay_bounds:
  "DayFromYear (YearFromDay d) \<le> d \<and> d < DayFromYear (YearFromDay d + 1)"
  unfolding YearFromDay_def by (rule year_up_bounds) (rule year_down_le)

lemma DayFromYear_less: "y < z \<Longrightarrow> DayFromYear y < DayFromYear z"
proof (induction z rule: int_gr_induct)
  case base
  then show ?case using DayFromYear_Suc [of y] DaysInYear_pos [of y] by simp
next
  case (step i)
  then show ?case using DayFromYear_Suc [of i] DaysInYear_pos [of i] by simp
qed

lemma YearFromDay_unique:
  assumes "DayFromYear y \<le> d" and "d < DayFromYear (y + 1)"
  shows "YearFromDay d = y"
proof (rule ccontr)
  assume ne: "YearFromDay d \<noteq> y"
  note b = YearFromDay_bounds [of d]
  show False
  proof (cases "YearFromDay d < y")
    case True
    then have "DayFromYear (YearFromDay d + 1) \<le> DayFromYear y"
      using DayFromYear_less [of "YearFromDay d + 1" y] by (cases "YearFromDay d + 1 = y") auto
    then show False using b assms by linarith
  next
    case False
    then have "y + 1 \<le> YearFromDay d" using ne by simp
    then have "DayFromYear (y + 1) \<le> DayFromYear (YearFromDay d)"
      using DayFromYear_less [of "y + 1" "YearFromDay d"] by (cases "y + 1 = YearFromDay d") auto
    then show False using b assms by linarith
  qed
qed

lemma DayWithinYear_bounds: "0 \<le> DayWithinYear d \<and> DayWithinYear d < DaysInYear (YearFromDay d)"
  using YearFromDay_bounds [of d] DayFromYear_Suc [of "YearFromDay d"]
  by (simp add: DayWithinYear_def)

lemma InLeapYear_cases: "InLeapYear d = 0 \<or> InLeapYear d = 1"
  by (simp add: InLeapYear_def)

lemma MonthFromDay_range: "0 \<le> MonthFromDay d \<and> MonthFromDay d \<le> 11"
  by (simp add: MonthFromDay_def Let_def)

lemma month_start_less:
  "0 \<le> m \<Longrightarrow> m < 11 \<Longrightarrow> 0 \<le> L \<Longrightarrow> month_start L m < month_start L (m + 1)"
  by (simp add: month_start_def) arith

lemma month_start_bounds:
  "0 \<le> m \<Longrightarrow> m \<le> 11 \<Longrightarrow> L = 0 \<or> L = 1 \<Longrightarrow> 0 \<le> month_start L m \<and> month_start L m \<le> 334 + L"
  by (auto simp add: month_start_def)

lemma MakeDay_in_range:
  "0 \<le> m \<Longrightarrow> m \<le> 11 \<Longrightarrow>
   MakeDay y m dt = DayFromYear y + month_start (if DaysInYear y = 366 then 1 else 0) m + dt - 1"
  by (simp add: MakeDay_def Let_def)

lemma MakeDay_fields: "MakeDay (YearFromDay d) (MonthFromDay d) (DateFromDay d) = d"
  using MonthFromDay_range [of d]
  by (simp add: MakeDay_in_range DateFromDay_def InLeapYear_def DayWithinYear_def)

lemma month_start_step:
  "0 \<le> m \<Longrightarrow> m < 11 \<Longrightarrow> 0 \<le> L \<Longrightarrow> month_start L m + 28 \<le> month_start L (m + 1)"
  by (simp add: month_start_def) arith

lemma next_month_day:
  "d + 28 \<le> MakeDay (YearFromDay d) (MonthFromDay d + 1) (DateFromDay d)"
proof (cases "MonthFromDay d < 11")
  case True
  then have "MakeDay (YearFromDay d) (MonthFromDay d + 1) (DateFromDay d) =
      DayFromYear (YearFromDay d) + month_start (InLeapYear d) (MonthFromDay d + 1)
        + DateFromDay d - 1"
    using MonthFromDay_range [of d] by (simp add: MakeDay_in_range InLeapYear_def)
  moreover have "d = DayFromYear (YearFromDay d) + month_start (InLeapYear d) (MonthFromDay d)
      + DateFromDay d - 1"
    by (simp add: DateFromDay_def DayWithinYear_def)
  ultimately show ?thesis
    using month_start_step [of "MonthFromDay d" "InLeapYear d"] True MonthFromDay_range [of d]
      InLeapYear_cases [of d]
    by linarith
next
  case False
  then have m: "MonthFromDay d = 11" using MonthFromDay_range [of d] by simp
  have "MakeDay (YearFromDay d) (MonthFromDay d + 1) (DateFromDay d) =
      DayFromYear (YearFromDay d + 1) + DateFromDay d - 1"
    by (simp add: MakeDay_def m month_start_def)
  moreover have "d = DayFromYear (YearFromDay d) + (334 + InLeapYear d) + DateFromDay d - 1"
    by (simp add: DateFromDay_def DayWithinYear_def m month_start_def)
  moreover have "DaysInYear (YearFromDay d) = 365 + InLeapYear d"
    by (simp add: InLeapYear_def DaysInYear_def)
  ultimately show ?thesis
    using DayFromYear_Suc [of "YearFromDay d"] by linarith
qed

lemma next_year_day:
  "d + 364 \<le> MakeDay (YearFromDay d + 1) (MonthFromDay d) (DateFromDay d)"
proof -
  let ?y = "YearFromDay d"
  let ?m = "MonthFromDay d"
  have r: "0 \<le> ?m \<and> ?m \<le> 11" by (rule MonthFromDay_range)
  have "MakeDay (?y + 1) ?m (DateFromDay d) =
      DayFromYear (?y + 1) + month_start (if DaysInYear (?y + 1) = 366 then 1 else 0) ?m
        + DateFromDay d - 1"
    using r by (simp add: MakeDay_in_range)
  moreover have "d = DayFromYear ?y + month_start (InLeapYear d) ?m + DateFromDay d - 1"
    by (simp add: DateFromDay_def DayWithinYear_def)
  moreover have "month_start (InLeapYear d) ?m
      \<le> month_start (if DaysInYear (?y + 1) = 366 then 1 else 0) ?m + 1"
    using InLeapYear_cases [of d] by (auto simp add: month_start_def)
  ultimately show ?thesis
    using DayFromYear_Suc [of ?y] DaysInYear_bounds [of ?y] by linarith
qed

lemma within_a_day_bounds: "- msPerDay < within_a_day x \<and> within_a_day x < msPerDay"
  by (simp add: within_a_day_def msPerDay_def max_def min_def)

lemma MakeDate_Day: "MakeDate (Day t) (TimeWithinDay t) = t"
  by (simp add: MakeDate_def Day_def TimeWithinDay_def)

lemma later_day_later_time:
  assumes "Day lt + 2 \<le> d"
  shows "UTC h (MakeDate d (TimeWithinDay lt)) > lt - within_a_day x"
proof -
  have "MakeDate d (TimeWithinDay lt) \<ge> MakeDate (Day lt) (TimeWithinDay lt) + 2 * msPerDay"
    using assms by (simp add: MakeDate_def msPerDay_def)
  then have "MakeDate d (TimeWithinDay lt) \<ge> lt + 2 * msPerDay"
    by (simp add: MakeDate_Day)
  then show ?thesis
    using within_a_day_bounds [of x]
      within_a_day_bounds [of "offset_at_local h (MakeDate d (TimeWithinDay lt))"]
    by (simp add: UTC_def)
qed

lemma setMonth_advances: "t < setMonth h t (getMonth h t + 1)"
proof -
  define lt where "lt = LocalTime h t"
  have t: "t = lt - within_a_day (offset_at_utc h t)" by (simp add: lt_def LocalTime_def)
  have "Day lt + 2 \<le> MakeDay (YearFromDay (Day lt)) (MonthFromDay (Day lt) + 1) (DateFromDay (Day lt))"
    using next_month_day [of "Day lt"] by simp
  from later_day_later_time [OF this, where h = h and x = "offset_at_utc h t"] t
  show ?thesis by (simp add: setMonth_def getMonth_def Let_def lt_def [symmetric])
qed

lemma setFullYear_advances: "t < setFullYear h t (getFullYear h t + 1)"
proof -
  define lt where "lt = LocalTime h t"
  have t: "t = lt - within_a_day (offset_at_utc h t)" by (simp add: lt_def LocalTime_def)
  have "Day lt + 2 \<le> MakeDay (YearFromDay (Day lt) + 1) (MonthFromDay (Day lt)) (DateFromDay (Day lt))"
    using next_year_day [of "Day lt"] by simp
  from later_day_later_time [OF this, where h = h and x = "offset_at_utc h t"] t
  show ?thesis by (simp add: setFullYear_def getFullYear_def Let_def lt_def [symmetric])
qed

section \<open>Recurring Materializer\<close>

text \<open>
  A recurring template, as read from the \<open>recurring\<close> collection: \<open>item.id\<close>,
  \<open>item.type\<close>, \<open>item.frequency\<close>, \<open>item.startDate\<close>, \<open>item.lastProcessed\<close> (\<open>null\<close> is
  \<open>None\<close>) and \<open>item.details\<close>, a payload the Materializer copies and never inspects.
\<close>

record 'd template =
  item_id :: string
  item_type :: string
  frequency :: string
  startDate :: day
  lastProcessed :: "day option"
  details :: 'd

text \<open>
  The materialized document \<open>{ ...item.details, date: ... }\<close>: \<open>payload\<close> is the copy of
  \<open>item.details\<close> and \<open>doc_date\<close> its \<open>date\<close> field, an ISO string.
\<close>

record 'd new_entry =
  payload :: 'd
  doc_date :: day

text \<open>
  The two operations queued on the write batch: \<open>batch.set\<close> of a new document in a
  collection, and \<open>batch.update\<close> of the field \<open>lastProcessed\<close> of a template.
\<close>

datatype 'd batch_write =
  Set_doc string "'d new_entry"
  | Update_lastProcessed string day

text \<open>\<open>collectionName\<close>, and the two writes queued for one due date.\<close>

definition collectionName :: "'d template \<Rightarrow> string" where
  "collectionName item = (if item_type item = ''income'' then ''incomes'' else ''transactions'')"

definition queue_writes :: "'d template \<Rightarrow> time \<Rightarrow> 'd batch_write list" where
  "queue_writes item nextDueDate =
     [Set_doc (collectionName item)
        \<lparr>payload = details item, doc_date = toISOString_date nextDueDate\<rparr>,
      Update_lastProcessed (item_id item) (toISOString_date nextDueDate)]"

text \<open>The first statement of the loop body: advance the due date by one period.\<close>

definition next_due :: "host \<Rightarrow> string \<Rightarrow> time \<Rightarrow> time" where
  "next_due h freq nextDueDate =
     (if freq = ''monthly'' then setMonth h nextDueDate (getMonth h nextDueDate + 1)
      else if freq = ''yearly'' then setFullYear h nextDueDate (getFullYear h nextDueDate + 1)
      else nextDueDate)"

text \<open>
  The \<open>while (nextDueDate < today)\<close> loop of one template. It may run forever, so the
  result is an option: \<open>None\<close> when the loop does not return.
\<close>

partial_function (option) catch_up ::
  "host \<Rightarrow> 'd template \<Rightarrow> time \<Rightarrow> time \<Rightarrow> 'd batch_write list \<Rightarrow> 'd batch_write list option"
  where
  "catch_up h item today nextDueDate batch =
     (if nextDueDate < today then
        catch_up h item today (next_due h (frequency item) nextDueDate)
          (if next_due h (frequency item) nextDueDate < today
           then batch @ queue_writes item (next_due h (frequency item) nextDueDate)
           else batch)
      else Some batch)"

text \<open>
  The \<open>Date\<close> a template starts from: \<open>new Date(item.lastProcessed)\<close> if \<open>lastProcessed\<close> is
  set, else \<open>new Date(item.startDate)\<close>.
\<close>

definition first_cursor :: "'d template \<Rightarrow> time" where
  "first_cursor item =
     (case lastProcessed item of Some l \<Rightarrow> parse_iso_date l | None \<Rightarrow> parse_iso_date (startDate item))"

text \<open>The \<open>for (const item of recurringItems)\<close> loop, filling the batch.\<close>

fun for_items ::
  "host \<Rightarrow> 'd template list \<Rightarrow> time \<Rightarrow> 'd batch_write list \<Rightarrow> 'd batch_write list option"
  where
  "for_items h [] today batch = Some batch"
| "for_items h (item # rest) today batch =
     (case catch_up h item today (first_cursor item) batch of
        None \<Rightarrow> None
      | Some batch' \<Rightarrow> for_items h rest today batch')"

text \<open>
  \<open>processRecurringTransactions\<close>, run at the time \<open>now\<close>: \<open>today\<close> is \<open>now\<close> cut to local
  midnight. The result is the list of the calls it makes to the store, in order: one
  \<open>batch.commit()\<close>, of the batch all templates have filled. \<open>None\<close> is a run that does not
  return.
\<close>

datatype 'd store_call = Batch_commit "'d batch_write list"

definition processRecurringTransactions ::
  "host \<Rightarrow> 'd template list \<Rightarrow> time \<Rightarrow> 'd store_call list option" where
  "processRecurringTransactions h recurringItems now =
     (let today = setHours0 h now in
      case for_items h recurringItems today [] of
        None \<Rightarrow> None
      | Some batch \<Rightarrow> Some [Batch_commit batch])"

text \<open>
  The part of the document store the Materializer writes: the documents of each collection,
  by collection name, and the recurring templates.
\<close>

record 'd store =
  docs :: "string \<Rightarrow> 'd new_entry list"
  recurring :: "'d template list"

definition set_cursor :: "string \<Rightarrow> day \<Rightarrow> 'd template \<Rightarrow> 'd template" where
  "set_cursor i d t = (if item_id t = i then t\<lparr>lastProcessed := Some d\<rparr> else t)"

fun apply_write :: "'d store \<Rightarrow> 'd batch_write \<Rightarrow> 'd store" where
  "apply_write st (Set_doc c e) = st\<lparr>docs := (docs st)(c := docs st c @ [e])\<rparr>"
| "apply_write st (Update_lastProcessed i d) =
     st\<lparr>recurring := map (set_cursor i d) (recurring st)\<rparr>"

text \<open>
  Modelled from the spec: the Ledger Store's \<open>batchSubmit\<close>, which is not part of the
  sources. The spec gives it as "\<open>batchSubmit(list of operations)\<close> \<rightarrow> atomic
  success/failure" and asks that "either all succeed or none do": a batch the store accepts
  is applied whole, in order, and a batch it rejects leaves the store as it was. Which
  batches the store accepts is the parameter \<open>accepts\<close>.
\<close>

definition batchSubmit ::
  "('d batch_write list \<Rightarrow> bool) \<Rightarrow> 'd batch_write list \<Rightarrow> 'd store \<Rightarrow> 'd store option" where
  "batchSubmit accepts batch st = (if accepts batch then Some (foldl apply_write st batch) else None)"

text \<open>
  A function either returns or throws; both carry the store reached. The calls of a run
  are made in order, each awaited: a rejected commit throws and ends the run.
\<close>

datatype 'a outcome = Returned 'a | Threw 'a

fun perform ::
  "('d batch_write list \<Rightarrow> bool) \<Rightarrow> 'd store_call list \<Rightarrow> 'd store \<Rightarrow> 'd store outcome" where
  "perform accepts [] st = Returned st"
| "perform accepts (Batch_commit batch # calls) st =
     (case batchSubmit accepts batch st of
        None \<Rightarrow> Threw st
      | Some st' \<Rightarrow> perform accepts calls st')"

text \<open>
  The handler of the \<open>recurring\<close> snapshot runs \<open>processRecurringTransactions\<close> on the
  templates of the store.
\<close>

definition on_recurring_snapshot ::
  "host \<Rightarrow> ('d batch_write list \<Rightarrow> bool) \<Rightarrow> time \<Rightarrow> 'd store \<Rightarrow> 'd store outcome option" where
  "on_recurring_snapshot h accepts now st =
     (case processRecurringTransactions h (recurring st) now of
        None \<Rightarrow> None
      | Some calls \<Rightarrow> Some (perform accepts calls st))"

subsection \<open>The catch-up loop\<close>

lemma next_due_advances:
  "f = ''monthly'' \<or> f = ''yearly'' \<Longrightarrow> d < next_due h f d"
  using setMonth_advances [of d h] setFullYear_advances [of d h] by (auto simp add: next_due_def)

lemma next_due_stuck:
  "f \<noteq> ''monthly'' \<Longrightarrow> f \<noteq> ''yearly'' \<Longrightarrow> next_due h f d = d"
  by (simp add: next_due_def)

lemma next_due_ge: "d \<le> next_due h f d"
  using next_due_advances [of f d h] next_due_stuck [of f h d] by fastforce

lemma catch_up_done: "\<not> c < today \<Longrightarrow> catch_up h item today c batch = Some batch"
  by (subst catch_up.simps) simp

lemma catch_up_step:
  "c < today \<Longrightarrow>
   catch_up h item today c batch =
     catch_up h item today (next_due h (frequency item) c)
       (if next_due h (frequency item) c < today
        then batch @ queue_writes item (next_due h (frequency item) c) else batch)"
  by (subst catch_up.simps) simp

lemma catch_up_stuck:
  assumes "frequency item \<noteq> ''monthly''" and "frequency item \<noteq> ''yearly''" and "c < today"
  shows "catch_up h item today c batch = None"
proof (cases "catch_up h item today c batch")
  case None
  then show ?thesis .
next
  case (Some b)
  have "\<not> (frequency item \<noteq> ''monthly'' \<and> frequency item \<noteq> ''yearly'' \<and> c < today)"
  proof (rule catch_up.raw_induct
      [where P = "\<lambda>h i t d b y. \<not> (frequency i \<noteq> ''monthly'' \<and> frequency i \<noteq> ''yearly'' \<and> d < t)",
        OF _ Some])
    fix f :: "host \<Rightarrow> 'a template \<Rightarrow> time \<Rightarrow> time \<Rightarrow> 'a batch_write list \<Rightarrow> 'a batch_write list option"
    fix h i t d b y
    assume IH: "\<And>h i t d b y. f h i t d b = Some y \<Longrightarrow>
        \<not> (frequency i \<noteq> ''monthly'' \<and> frequency i \<noteq> ''yearly'' \<and> d < t)"
    assume eq: "(if d < t
        then f h i t (next_due h (frequency i) d)
          (if next_due h (frequency i) d < t then b @ queue_writes i (next_due h (frequency i) d) else b)
        else Some b) = Some y"
    show "\<not> (frequency i \<noteq> ''monthly'' \<and> frequency i \<noteq> ''yearly'' \<and> d < t)"
    proof
      assume a: "frequency i \<noteq> ''monthly'' \<and> frequency i \<noteq> ''yearly'' \<and> d < t"
      then have s: "next_due h (frequency i) d = d" by (simp add: next_due_stuck)
      from eq a s have "f h i t d (b @ queue_writes i d) = Some y" by simp
      from IH [OF this] a show False by simp
    qed
  qed
  with assms show ?thesis by simp
qed

text \<open>
  The first \<open>n\<close> dates after the cursor \<open>c\<close>: \<open>c\<close> advanced by 1, ..., \<open>n\<close> periods.
\<close>

definition due_dates :: "host \<Rightarrow> string \<Rightarrow> time \<Rightarrow> nat \<Rightarrow> time list" where
  "due_dates h freq c n = map (\<lambda>k. (next_due h freq ^^ Suc k) c) [0..<n]"

lemma due_dates_Suc:
  "due_dates h freq c (Suc n) = next_due h freq c # due_dates h freq (next_due h freq c) n"
proof -
  have "[0..<Suc n] = 0 # map Suc [0..<n]"
    using upt_conv_Cons [of 0 "Suc n"] by (simp add: map_Suc_upt del: upt_Suc)
  then show ?thesis
    by (simp add: due_dates_def funpow_swap1 o_def del: upt_Suc)
qed

lemma catch_up_returns:
  assumes "frequency item = ''monthly'' \<or> frequency item = ''yearly'' \<or> \<not> c < today"
  shows "\<exists>n. catch_up h item today c batch =
              Some (batch @ concat (map (queue_writes item) (due_dates h (frequency item) c n)))
            \<and> (\<forall>k<n. (next_due h (frequency item) ^^ Suc k) c < today)
            \<and> \<not> (next_due h (frequency item) ^^ Suc n) c < today"
  using assms
proof (induction "nat (today - c)" arbitrary: c batch rule: less_induct)
  case less
  let ?f = "frequency item"
  show ?case
  proof (cases "c < today")
    case False
    then have "catch_up h item today c batch = Some batch" by (rule catch_up_done)
    moreover have "\<not> next_due h ?f c < today" using False next_due_ge [of c h ?f] by simp
    ultimately show ?thesis by (intro exI [of _ 0]) (simp add: due_dates_def)
  next
    case True
    then have per: "?f = ''monthly'' \<or> ?f = ''yearly''" using less.prems by simp
    let ?c = "next_due h ?f c"
    have adv: "c < ?c" using per by (rule next_due_advances)
    show ?thesis
    proof (cases "?c < today")
      case False
      then have "catch_up h item today c batch = Some batch"
        using True by (simp add: catch_up_step catch_up_done)
      then show ?thesis using False by (intro exI [of _ 0]) (simp add: due_dates_def)
    next
      case c: True
      have "nat (today - ?c) < nat (today - c)" using adv c by simp
      from less.hyps [OF this, of "batch @ queue_writes item ?c"] per
      obtain n where
        r: "catch_up h item today ?c (batch @ queue_writes item ?c) =
              Some ((batch @ queue_writes item ?c) @ concat (map (queue_writes item) (due_dates h ?f ?c n)))"
        and b: "\<forall>k<n. (next_due h ?f ^^ Suc k) ?c < today"
        and e: "\<not> (next_due h ?f ^^ Suc n) ?c < today"
        by blast
      have 1: "catch_up h item today c batch =
          Some (batch @ concat (map (queue_writes item) (due_dates h ?f c (Suc n))))"
        using True c r by (simp add: catch_up_step due_dates_Suc)
      have 2: "\<forall>k<Suc n. (next_due h ?f ^^ Suc k) c < today"
      proof (intro allI impI)
        fix k assume "k < Suc n"
        show "(next_due h ?f ^^ Suc k) c < today"
        proof (cases k)
          case 0
          then show ?thesis using c by simp
        next
          case (Suc j)
          then have "j < n" using \<open>k < Suc n\<close> by simp
          then have "(next_due h ?f ^^ Suc j) ?c < today" using b by simp
          then show ?thesis using Suc by (simp add: funpow_swap1)
        qed
      qed
      have 3: "\<not> (next_due h ?f ^^ Suc (Suc n)) c < today"
        using e by (simp add: funpow_swap1)
      from 1 2 3 show ?thesis by blast
    qed
  qed
qed

lemma catch_up_SomeD:
  assumes "catch_up h item today c batch = Some b"
  shows "\<exists>n. b = batch @ concat (map (queue_writes item) (due_dates h (frequency item) c n))
            \<and> (\<forall>k<n. (next_due h (frequency item) ^^ Suc k) c < today)
            \<and> \<not> (next_due h (frequency item) ^^ Suc n) c < today"
proof -
  have "frequency item = ''monthly'' \<or> frequency item = ''yearly'' \<or> \<not> c < today"
    using assms catch_up_stuck [of item c today h batch] by fastforce
  from catch_up_returns [OF this, where batch = batch and h = h] assms show ?thesis by auto
qed

subsection \<open>The batch of a run and its effect on the store\<close>

text \<open>The writes a run queues for templates \<open>items\<close> with due dates \<open>dss\<close>, template by template.\<close>

definition writes_for :: "('d template \<times> time list) list \<Rightarrow> 'd batch_write list" where
  "writes_for ids = concat (map (\<lambda>(item, ds). concat (map (queue_writes item) ds)) ids)"

text \<open>The effect of one write of a batch on one template.\<close>

definition cursor_write :: "'d template \<Rightarrow> 'd batch_write \<Rightarrow> 'd template" where
  "cursor_write t w = (case w of Set_doc c e \<Rightarrow> t | Update_lastProcessed i d \<Rightarrow> set_cursor i d t)"

text \<open>The documents a batch adds to the collection \<open>c\<close>.\<close>

definition docs_added :: "string \<Rightarrow> 'd batch_write list \<Rightarrow> 'd new_entry list" where
  "docs_added c ws =
     concat (map (\<lambda>w. case w of Set_doc c' e \<Rightarrow> (if c' = c then [e] else [])
                            | Update_lastProcessed i d \<Rightarrow> []) ws)"

text \<open>The ids of the templates a batch updates.\<close>

definition touched :: "'d batch_write list \<Rightarrow> string set" where
  "touched ws = {i. \<exists>d. Update_lastProcessed i d \<in> set ws}"

text \<open>A template after its due dates \<open>ds\<close> have been materialized.\<close>

definition advanced :: "'d template \<Rightarrow> time list \<Rightarrow> 'd template" where
  "advanced item ds =
     (if ds = [] then item else item\<lparr>lastProcessed := Some (toISOString_date (last ds))\<rparr>)"

text \<open>The documents materialized for the collection \<open>c\<close>.\<close>

definition materialized :: "string \<Rightarrow> ('d template \<times> time list) list \<Rightarrow> 'd new_entry list" where
  "materialized c ids =
     concat (map (\<lambda>(item, ds). if collectionName item = c
        then map (\<lambda>d. \<lparr>payload = details item, doc_date = toISOString_date d\<rparr>) ds else []) ids)"

lemma for_items_shape:
  "for_items h items today batch = Some b \<Longrightarrow>
   \<exists>dss. length dss = length items \<and> b = batch @ writes_for (zip items dss)
     \<and> (\<forall>ds \<in> set dss. \<forall>d \<in> set ds. d < today)"
proof (induction items arbitrary: batch)
  case Nil
  then show ?case by (simp add: writes_for_def)
next
  case (Cons item rest)
  from Cons.prems obtain b1 where
    1: "catch_up h item today (first_cursor item) batch = Some b1" and
    2: "for_items h rest today b1 = Some b"
    by (auto split: option.splits)
  from catch_up_SomeD [OF 1] obtain n where
    b1: "b1 = batch @ concat (map (queue_writes item)
        (due_dates h (frequency item) (first_cursor item) n))"
    and lt: "\<forall>k<n. (next_due h (frequency item) ^^ Suc k) (first_cursor item) < today"
    by blast
  define ds where "ds = due_dates h (frequency item) (first_cursor item) n"
  have dlt: "\<forall>d \<in> set ds. d < today"
    using lt by (auto simp add: ds_def due_dates_def)
  from Cons.IH [OF 2] obtain dss where
    l: "length dss = length rest" and b: "b = b1 @ writes_for (zip rest dss)"
    and r: "\<forall>ds \<in> set dss. \<forall>d \<in> set ds. d < today"
    by blast
  have "b = batch @ writes_for (zip (item # rest) (ds # dss))"
    using b b1 by (simp add: writes_for_def ds_def)
  moreover have "length (ds # dss) = length (item # rest)" using l by simp
  moreover have "\<forall>ds \<in> set (ds # dss). \<forall>d \<in> set ds. d < today" using dlt r by simp
  ultimately show ?case by blast
qed

lemma recurring_foldl:
  "recurring (foldl apply_write st ws) = map (\<lambda>t. foldl cursor_write t ws) (recurring st)"
proof (induction ws arbitrary: st)
  case Nil
  then show ?case by simp
next
  case (Cons w ws)
  then show ?case by (cases w) (simp_all add: cursor_write_def o_def)
qed

lemma docs_foldl:
  "docs (foldl apply_write st ws) c = docs st c @ docs_added c ws"
proof (induction ws arbitrary: st)
  case Nil
  then show ?case by (simp add: docs_added_def)
next
  case (Cons w ws)
  then show ?case by (cases w) (simp_all add: docs_added_def)
qed

lemma touched_append: "touched (xs @ ys) = touched xs \<union> touched ys"
  by (auto simp add: touched_def)

lemma touched_queue: "touched (concat (map (queue_writes item) ds)) \<subseteq> {item_id item}"
  by (auto simp add: touched_def queue_writes_def)

lemma touched_writes_for: "touched (writes_for ids) \<subseteq> item_id ` fst ` set ids"
proof (induction ids)
  case Nil
  then show ?case by (simp add: writes_for_def touched_def)
next
  case (Cons p ids)
  obtain item ds where p: "p = (item, ds)" by (cases p)
  have "writes_for (p # ids) = concat (map (queue_writes item) ds) @ writes_for ids"
    by (simp add: writes_for_def p)
  then show ?case
    using Cons touched_queue [of item ds] by (auto simp add: touched_append p)
qed

lemma untouched: "item_id t \<notin> touched ws \<Longrightarrow> foldl cursor_write t ws = t"
proof (induction ws)
  case Nil
  then show ?case by simp
next
  case (Cons w ws)
  then show ?case
    by (cases w) (auto simp add: touched_def cursor_write_def set_cursor_def)
qed

lemma own_writes:
  "item_id t = item_id item \<Longrightarrow>
   foldl cursor_write t (concat (map (queue_writes item) ds)) =
     (if ds = [] then t else t\<lparr>lastProcessed := Some (toISOString_date (last ds))\<rparr>)"
proof (induction ds arbitrary: t)
  case Nil
  then show ?case by simp
next
  case (Cons d ds)
  have "foldl cursor_write t (queue_writes item d) = t\<lparr>lastProcessed := Some (toISOString_date d)\<rparr>"
    using Cons.prems by (simp add: queue_writes_def cursor_write_def set_cursor_def)
  moreover have "item_id (t\<lparr>lastProcessed := Some (toISOString_date d)\<rparr>) = item_id item"
    using Cons.prems by simp
  ultimately show ?case using Cons.IH [of "t\<lparr>lastProcessed := Some (toISOString_date d)\<rparr>"] by simp
qed

lemma cursors_after:
  assumes "length dss = length items" and "distinct (map item_id items)"
  shows "map (\<lambda>t. foldl cursor_write t (writes_for (zip items dss))) items =
         map (\<lambda>(item, ds). advanced item ds) (zip items dss)"
  using assms
proof (induction dss items rule: list_induct2)
  case Nil
  then show ?case by simp
next
  case (Cons ds dss item rest)
  let ?w1 = "concat (map (queue_writes item) ds)"
  let ?wr = "writes_for (zip rest dss)"
  have w: "writes_for (zip (item # rest) (ds # dss)) = ?w1 @ ?wr"
    by (simp add: writes_for_def)
  have nin: "item_id item \<notin> item_id ` set rest" and dr: "distinct (map item_id rest)"
    using Cons.prems by simp_all
  have tr: "touched ?wr \<subseteq> item_id ` set rest"
  proof -
    have "fst ` set (zip rest dss) \<subseteq> set rest"
      by (auto dest: set_zip_leftD)
    then have "item_id ` fst ` set (zip rest dss) \<subseteq> item_id ` set rest" by blast
    with touched_writes_for [of "zip rest dss"] show ?thesis by blast
  qed
  have h1: "foldl cursor_write item ?w1 = advanced item ds"
    using own_writes [of item item ds] by (simp add: advanced_def)
  have "item_id (advanced item ds) = item_id item" by (simp add: advanced_def)
  then have "item_id (advanced item ds) \<notin> touched ?wr" using tr nin by auto
  then have head: "foldl cursor_write item (?w1 @ ?wr) = advanced item ds"
    using h1 by (simp add: untouched)
  have tail: "map (\<lambda>t. foldl cursor_write t (?w1 @ ?wr)) rest
      = map (\<lambda>t. foldl cursor_write t ?wr) rest"
  proof (rule map_cong [OF refl])
    fix t assume "t \<in> set rest"
    then have "item_id t \<noteq> item_id item" using nin by (metis imageI)
    then have "item_id t \<notin> touched ?w1" using touched_queue [of item ds] by auto
    then show "foldl cursor_write t (?w1 @ ?wr) = foldl cursor_write t ?wr"
      by (simp add: untouched)
  qed
  show ?case
    unfolding w using head tail Cons.IH [OF dr] by (simp del: foldl_append)
qed

lemma docs_added_writes_for: "docs_added c (writes_for ids) = materialized c ids"
proof -
  have q: "docs_added c (concat (map (queue_writes item) ds)) =
      (if collectionName item = c
       then map (\<lambda>d. \<lparr>payload = details item, doc_date = toISOString_date d\<rparr>) ds else [])" for item :: "'a template" and ds
    by (induction ds) (simp_all add: docs_added_def queue_writes_def)
  have a: "docs_added c (xs @ ys) = docs_added c xs @ docs_added c ys" for xs ys :: "'a batch_write list"
    by (simp add: docs_added_def)
  show ?thesis
  proof (induction ids)
    case Nil
    then show ?case by (simp add: writes_for_def docs_added_def materialized_def)
  next
    case (Cons p ids)
    obtain item ds where p: "p = (item, ds)" by (cases p)
    have "writes_for (p # ids) = concat (map (queue_writes item) ds) @ writes_for ids"
      by (simp add: writes_for_def p)
    then show ?case using Cons q [of item ds] by (simp add: a p materialized_def)
  qed
qed

subsection \<open>Runs on hosts in UTC and in the time zone of Berlin\<close>

lemma toISOString_date_parse: "toISOString_date (parse_iso_date d) = d"
  by (simp add: toISOString_date_def parse_iso_date_def MakeDate_def Day_def msPerDay_def)

lemma berlin_steps:
  "next_due berlin_2024 ''monthly'' (parse_iso_date (iso_date 2024 1 15)) = parse_iso_date (iso_date 2024 2 15)"
  "next_due berlin_2024 ''monthly'' (parse_iso_date (iso_date 2024 2 15)) = parse_iso_date (iso_date 2024 3 15)"
  "next_due berlin_2024 ''monthly'' (parse_iso_date (iso_date 2024 3 15)) = MakeDate (iso_date 2024 4 14) (23 * msPerHour)"
  "next_due berlin_2024 ''monthly'' (MakeDate (iso_date 2024 4 14) (23 * msPerHour)) = MakeDate (iso_date 2024 5 14) (23 * msPerHour)"
  "next_due berlin_2024 ''monthly'' (parse_iso_date (iso_date 2024 4 14)) = parse_iso_date (iso_date 2024 5 14)"
  "next_due berlin_2024 ''monthly'' (parse_iso_date (iso_date 2024 5 14)) = parse_iso_date (iso_date 2024 6 14)"
  "toISOString_date (MakeDate (iso_date 2024 4 14) (23 * msPerHour)) = iso_date 2024 4 14"
  by code_simp+

lemma berlin_before_may1:
  "parse_iso_date (iso_date 2024 1 15) < MakeDate (iso_date 2024 4 30) (22 * msPerHour)"
  "parse_iso_date (iso_date 2024 2 15) < MakeDate (iso_date 2024 4 30) (22 * msPerHour)"
  "parse_iso_date (iso_date 2024 3 15) < MakeDate (iso_date 2024 4 30) (22 * msPerHour)"
  "MakeDate (iso_date 2024 4 14) (23 * msPerHour) < MakeDate (iso_date 2024 4 30) (22 * msPerHour)"
  "\<not> MakeDate (iso_date 2024 5 14) (23 * msPerHour) < MakeDate (iso_date 2024 4 30) (22 * msPerHour)"
  by code_simp+

lemma berlin_before_may15:
  "parse_iso_date (iso_date 2024 1 15) < MakeDate (iso_date 2024 5 14) (22 * msPerHour)"
  "parse_iso_date (iso_date 2024 2 15) < MakeDate (iso_date 2024 5 14) (22 * msPerHour)"
  "parse_iso_date (iso_date 2024 3 15) < MakeDate (iso_date 2024 5 14) (22 * msPerHour)"
  "MakeDate (iso_date 2024 4 14) (23 * msPerHour) < MakeDate (iso_date 2024 5 14) (22 * msPerHour)"
  "\<not> MakeDate (iso_date 2024 5 14) (23 * msPerHour) < MakeDate (iso_date 2024 5 14) (22 * msPerHour)"
  "parse_iso_date (iso_date 2024 4 14) < MakeDate (iso_date 2024 5 14) (22 * msPerHour)"
  "parse_iso_date (iso_date 2024 5 14) < MakeDate (iso_date 2024 5 14) (22 * msPerHour)"
  "\<not> parse_iso_date (iso_date 2024 6 14) < MakeDate (iso_date 2024 5 14) (22 * msPerHour)"
  by code_simp+

lemma utc_steps:
  "next_due utc_host ''monthly'' (parse_iso_date (iso_date 2024 1 15)) = parse_iso_date (iso_date 2024 2 15)"
  "next_due utc_host ''monthly'' (parse_iso_date (iso_date 2024 2 15)) = parse_iso_date (iso_date 2024 3 15)"
  "next_due utc_host ''monthly'' (parse_iso_date (iso_date 2024 3 15)) = parse_iso_date (iso_date 2024 4 15)"
  "next_due utc_host ''monthly'' (parse_iso_date (iso_date 2024 4 15)) = parse_iso_date (iso_date 2024 5 15)"
  "parse_iso_date (iso_date 2024 1 15) < parse_iso_date (iso_date 2024 5 1)"
  "parse_iso_date (iso_date 2024 2 15) < parse_iso_date (iso_date 2024 5 1)"
  "parse_iso_date (iso_date 2024 3 15) < parse_iso_date (iso_date 2024 5 1)"
  "parse_iso_date (iso_date 2024 4 15) < parse_iso_date (iso_date 2024 5 1)"
  "\<not> parse_iso_date (iso_date 2024 5 15) < parse_iso_date (iso_date 2024 5 1)"
  by code_simp+

lemma berlin_may1_batch:
  "for_items berlin_2024
     [\<lparr>item_id = i, item_type = ty, frequency = ''monthly'', startDate = iso_date 2024 1 15,
       lastProcessed = None, details = x\<rparr>]
     (MakeDate (iso_date 2024 4 30) (22 * msPerHour)) [] =
   Some [Set_doc (if ty = ''income'' then ''incomes'' else ''transactions'')
           \<lparr>payload = x, doc_date = iso_date 2024 2 15\<rparr>,
         Update_lastProcessed i (iso_date 2024 2 15),
         Set_doc (if ty = ''income'' then ''incomes'' else ''transactions'')
           \<lparr>payload = x, doc_date = iso_date 2024 3 15\<rparr>,
         Update_lastProcessed i (iso_date 2024 3 15),
         Set_doc (if ty = ''income'' then ''incomes'' else ''transactions'')
           \<lparr>payload = x, doc_date = iso_date 2024 4 14\<rparr>,
         Update_lastProcessed i (iso_date 2024 4 14)]"
  by (simp add: first_cursor_def catch_up_step catch_up_done berlin_steps berlin_before_may1
      queue_writes_def collectionName_def toISOString_date_parse)

lemma local_midnights:
  "setHours0 berlin_2024 (MakeDate (iso_date 2024 5 1) (10 * msPerHour)) = MakeDate (iso_date 2024 4 30) (22 * msPerHour)"
  "setHours0 berlin_2024 (MakeDate (iso_date 2024 5 15) (10 * msPerHour)) = MakeDate (iso_date 2024 5 14) (22 * msPerHour)"
  "new_Date berlin_2024 2024 4 1 = MakeDate (iso_date 2024 4 30) (22 * msPerHour)"
  "new_Date berlin_2024 2024 4 15 = MakeDate (iso_date 2024 5 14) (22 * msPerHour)"
  "setHours0 utc_host (MakeDate (iso_date 2024 5 1) (10 * msPerHour)) = parse_iso_date (iso_date 2024 5 1)"
  "new_Date utc_host 2024 4 1 = parse_iso_date (iso_date 2024 5 1)"
  by code_simp+

lemma utc_may1_batch:
  "for_items utc_host
     [\<lparr>item_id = i, item_type = ty, frequency = ''monthly'', startDate = iso_date 2024 1 15,
       lastProcessed = None, details = x\<rparr>]
     (parse_iso_date (iso_date 2024 5 1)) [] =
   Some [Set_doc (if ty = ''income'' then ''incomes'' else ''transactions'')
           \<lparr>payload = x, doc_date = iso_date 2024 2 15\<rparr>,
         Update_lastProcessed i (iso_date 2024 2 15),
         Set_doc (if ty = ''income'' then ''incomes'' else ''transactions'')
           \<lparr>payload = x, doc_date = iso_date 2024 3 15\<rparr>,
         Update_lastProcessed i (iso_date 2024 3 15),
         Set_doc (if ty = ''income'' then ''incomes'' else ''transactions'')
           \<lparr>payload = x, doc_date = iso_date 2024 4 15\<rparr>,
         Update_lastProcessed i (iso_date 2024 4 15)]"
  by (simp add: first_cursor_def catch_up_step catch_up_done utc_steps
      queue_writes_def collectionName_def toISOString_date_parse)

lemma berlin_may15_batch:
  "for_items berlin_2024
     [\<lparr>item_id = i, item_type = ty, frequency = ''monthly'', startDate = iso_date 2024 1 15,
       lastProcessed = None, details = x\<rparr>]
     (MakeDate (iso_date 2024 5 14) (22 * msPerHour)) [] =
   Some [Set_doc (if ty = ''income'' then ''incomes'' else ''transactions'')
           \<lparr>payload = x, doc_date = iso_date 2024 2 15\<rparr>,
         Update_lastProcessed i (iso_date 2024 2 15),
         Set_doc (if ty = ''income'' then ''incomes'' else ''transactions'')
           \<lparr>payload = x, doc_date = iso_date 2024 3 15\<rparr>,
         Update_lastProcessed i (iso_date 2024 3 15),
         Set_doc (if ty = ''income'' then ''incomes'' else ''transactions'')
           \<lparr>payload = x, doc_date = iso_date 2024 4 14\<rparr>,
         Update_lastProcessed i (iso_date 2024 4 14)]"
  by (simp add: first_cursor_def catch_up_step catch_up_done berlin_steps berlin_before_may15
      queue_writes_def collectionName_def toISOString_date_parse)

lemma berlin_may15_second_batch:
  "for_items berlin_2024
     [\<lparr>item_id = i, item_type = ty, frequency = ''monthly'', startDate = iso_date 2024 1 15,
       lastProcessed = Some (iso_date 2024 4 14), details = x\<rparr>]
     (MakeDate (iso_date 2024 5 14) (22 * msPerHour)) [] =
   Some [Set_doc (if ty = ''income'' then ''incomes'' else ''transactions'')
           \<lparr>payload = x, doc_date = iso_date 2024 5 14\<rparr>,
         Update_lastProcessed i (iso_date 2024 5 14)]"
  by (simp add: first_cursor_def catch_up_step catch_up_done berlin_steps berlin_before_may15
      queue_writes_def collectionName_def toISOString_date_parse)

section \<open>Claims about the Recurring Materializer\<close>

text \<open>
  Claim C1, on the example of the specification, run on a host in the time zone of Berlin.
  The template is monthly, starts on 2024-01-15 and has never been processed; the run is on
  2024-05-01 at 10:00 UTC, so \<open>today\<close> is the local midnight of 2024-05-01. The batch the run
  commits holds three documents, dated 2024-02-15, 2024-03-15 and 2024-04-14, each followed
  by the update of the cursor to its date, and the store that accepts it is left with these
  three documents and the cursor 2024-04-14: the cursor is read in UTC and advanced in local
  time, and the step over the start of summer time moves its UTC date back by one day. On a
  host in UTC the same run gives 2024-04-15 for the third document and for the cursor.
\<close>

theorem materializer_example_on_berlin:
  "setHours0 berlin_2024 (MakeDate (iso_date 2024 5 1) (10 * msPerHour)) = new_Date berlin_2024 2024 4 1
   \<and> processRecurringTransactions berlin_2024
       [\<lparr>item_id = i, item_type = ''expense'', frequency = ''monthly'',
         startDate = iso_date 2024 1 15, lastProcessed = None, details = x\<rparr>]
       (MakeDate (iso_date 2024 5 1) (10 * msPerHour)) =
     Some [Batch_commit
       [Set_doc ''transactions'' \<lparr>payload = x, doc_date = iso_date 2024 2 15\<rparr>,
        Update_lastProcessed i (iso_date 2024 2 15),
        Set_doc ''transactions'' \<lparr>payload = x, doc_date = iso_date 2024 3 15\<rparr>,
        Update_lastProcessed i (iso_date 2024 3 15),
        Set_doc ''transactions'' \<lparr>payload = x, doc_date = iso_date 2024 4 14\<rparr>,
        Update_lastProcessed i (iso_date 2024 4 14)]]
   \<and> on_recurring_snapshot berlin_2024 (\<lambda>batch. True) (MakeDate (iso_date 2024 5 1) (10 * msPerHour))
     \<lparr>docs = D,
      recurring = [\<lparr>item_id = i, item_type = ''expense'', frequency = ''monthly'',
        startDate = iso_date 2024 1 15, lastProcessed = None, details = x\<rparr>]\<rparr> =
     Some (Returned
       \<lparr>docs = D(''transactions'' := D ''transactions'' @
           [\<lparr>payload = x, doc_date = iso_date 2024 2 15\<rparr>,
            \<lparr>payload = x, doc_date = iso_date 2024 3 15\<rparr>,
            \<lparr>payload = x, doc_date = iso_date 2024 4 14\<rparr>]),
        recurring = [\<lparr>item_id = i, item_type = ''expense'', frequency = ''monthly'',
          startDate = iso_date 2024 1 15, lastProcessed = Some (iso_date 2024 4 14),
          details = x\<rparr>]\<rparr>)
   \<and> on_recurring_snapshot utc_host (\<lambda>batch. True) (MakeDate (iso_date 2024 5 1) (10 * msPerHour))
     \<lparr>docs = D,
      recurring = [\<lparr>item_id = i, item_type = ''expense'', frequency = ''monthly'',
        startDate = iso_date 2024 1 15, lastProcessed = None, details = x\<rparr>]\<rparr> =
     Some (Returned
       \<lparr>docs = D(''transactions'' := D ''transactions'' @
           [\<lparr>payload = x, doc_date = iso_date 2024 2 15\<rparr>,
            \<lparr>payload = x, doc_date = iso_date 2024 3 15\<rparr>,
            \<lparr>payload = x, doc_date = iso_date 2024 4 15\<rparr>]),
        recurring = [\<lparr>item_id = i, item_type = ''expense'', frequency = ''monthly'',
          startDate = iso_date 2024 1 15, lastProcessed = Some (iso_date 2024 4 15),
          details = x\<rparr>]\<rparr>)"
  by (simp add: on_recurring_snapshot_def processRecurringTransactions_def local_midnights
      berlin_may1_batch [where ty = "''expense''"] utc_may1_batch [where ty = "''expense''"]
      batchSubmit_def set_cursor_def del: for_items.simps)

text \<open>
  Claim C2, on the same template run twice at the same instant, 2024-05-15 at 10:00 UTC, on
  the Berlin host, the store accepting both batches. \<open>today\<close> is the local midnight of
  2024-05-15 in both runs. The first run leaves three documents and the cursor 2024-04-14.
  The second run, on the store the first one left, reads the cursor as 2024-04-14 at 00:00
  UTC and advances it to 2024-05-14 at 00:00 UTC, which is before \<open>today\<close> (2024-05-14 at
  22:00 UTC): it commits one more document, dated 2024-05-14, and moves the cursor to
  2024-05-14.
\<close>

theorem second_run_on_berlin:
  "setHours0 berlin_2024 (MakeDate (iso_date 2024 5 15) (10 * msPerHour)) = new_Date berlin_2024 2024 4 15
   \<and> on_recurring_snapshot berlin_2024 (\<lambda>batch. True) (MakeDate (iso_date 2024 5 15) (10 * msPerHour))
     \<lparr>docs = (\<lambda>c. []),
      recurring = [\<lparr>item_id = i, item_type = ''expense'', frequency = ''monthly'',
        startDate = iso_date 2024 1 15, lastProcessed = None, details = x\<rparr>]\<rparr> =
     Some (Returned
       \<lparr>docs = (\<lambda>c. [])(''transactions'' :=
           [\<lparr>payload = x, doc_date = iso_date 2024 2 15\<rparr>,
            \<lparr>payload = x, doc_date = iso_date 2024 3 15\<rparr>,
            \<lparr>payload = x, doc_date = iso_date 2024 4 14\<rparr>]),
        recurring = [\<lparr>item_id = i, item_type = ''expense'', frequency = ''monthly'',
          startDate = iso_date 2024 1 15, lastProcessed = Some (iso_date 2024 4 14),
          details = x\<rparr>]\<rparr>)
   \<and> processRecurringTransactions berlin_2024
       [\<lparr>item_id = i, item_type = ''expense'', frequency = ''monthly'',
         startDate = iso_date 2024 1 15, lastProcessed = Some (iso_date 2024 4 14),
         details = x\<rparr>]
       (MakeDate (iso_date 2024 5 15) (10 * msPerHour)) =
     Some [Batch_commit
       [Set_doc ''transactions'' \<lparr>payload = x, doc_date = iso_date 2024 5 14\<rparr>,
        Update_lastProcessed i (iso_date 2024 5 14)]]
   \<and> on_recurring_snapshot berlin_2024 (\<lambda>batch. True) (MakeDate (iso_date 2024 5 15) (10 * msPerHour))
       \<lparr>docs = (\<lambda>c. [])(''transactions'' :=
           [\<lparr>payload = x, doc_date = iso_date 2024 2 15\<rparr>,
            \<lparr>payload = x, doc_date = iso_date 2024 3 15\<rparr>,
            \<lparr>payload = x, doc_date = iso_date 2024 4 14\<rparr>]),
        recurring = [\<lparr>item_id = i, item_type = ''expense'', frequency = ''monthly'',
          startDate = iso_date 2024 1 15, lastProcessed = Some (iso_date 2024 4 14),
          details = x\<rparr>]\<rparr> =
     Some (Returned
       \<lparr>docs = (\<lambda>c. [])(''transactions'' :=
           [\<lparr>payload = x, doc_date = iso_date 2024 2 15\<rparr>,
            \<lparr>payload = x, doc_date = iso_date 2024 3 15\<rparr>,
            \<lparr>payload = x, doc_date = iso_date 2024 4 14\<rparr>,
            \<lparr>payload = x, doc_date = iso_date 2024 5 14\<rparr>]),
        recurring = [\<lparr>item_id = i, item_type = ''expense'', frequency = ''monthly'',
          startDate = iso_date 2024 1 15, lastProcessed = Some (iso_date 2024 5 14),
          details = x\<rparr>]\<rparr>)"
  by (simp add: on_recurring_snapshot_def processRecurringTransactions_def local_midnights
      berlin_may15_batch [where ty = "''expense''"]
      berlin_may15_second_batch [where ty = "''expense''"]
      batchSubmit_def set_cursor_def del: for_items.simps)

text \<open>
  Claim C3. A run that returns makes exactly one call to the store, the commit of one batch
  that holds the writes of every template: for each template the documents of its due
  dates, all before \<open>today\<close>, each followed by the update of the template's cursor to that
  date. With the store's commit modelled from the spec, a rejected batch makes the run throw
  and leaves the store as it was (no document created, no cursor changed), and after an
  accepted batch every collection has gained exactly the documents of the due dates of its
  templates, and every template has its cursor at the last of its due dates when it has
  one and is unchanged when it has none: no cursor is advanced without its documents and no
  document is created without its cursor. The ids of the templates are distinct, as the ids
  of the documents of one collection are.
\<close>

theorem one_batch_all_or_nothing:
  assumes "on_recurring_snapshot h accepts now st = Some out"
    and "distinct (map item_id (recurring st))"
  shows "\<exists>dss. length dss = length (recurring st)
          \<and> (\<forall>ds \<in> set dss. \<forall>d \<in> set ds. d < setHours0 h now)
          \<and> processRecurringTransactions h (recurring st) now =
              Some [Batch_commit (writes_for (zip (recurring st) dss))]
          \<and> out = (if accepts (writes_for (zip (recurring st) dss))
                   then Returned
                     \<lparr>docs = (\<lambda>c. docs st c @ materialized c (zip (recurring st) dss)),
                      recurring = map (\<lambda>(item, ds). advanced item ds) (zip (recurring st) dss)\<rparr>
                   else Threw st)"
proof -
  from assms(1) obtain batch where
    b: "for_items h (recurring st) (setHours0 h now) [] = Some batch"
    by (auto simp add: on_recurring_snapshot_def processRecurringTransactions_def Let_def
        split: option.splits)
  from for_items_shape [OF b] obtain dss where
    l: "length dss = length (recurring st)" and
    w: "batch = writes_for (zip (recurring st) dss)" and
    d: "\<forall>ds \<in> set dss. \<forall>d \<in> set ds. d < setHours0 h now"
    by auto
  have calls: "processRecurringTransactions h (recurring st) now = Some [Batch_commit batch]"
    using b by (simp add: processRecurringTransactions_def Let_def)
  have st': "foldl apply_write st batch =
      \<lparr>docs = (\<lambda>c. docs st c @ materialized c (zip (recurring st) dss)),
       recurring = map (\<lambda>(item, ds). advanced item ds) (zip (recurring st) dss)\<rparr>"
  proof -
    have "recurring (foldl apply_write st batch) =
        map (\<lambda>(item, ds). advanced item ds) (zip (recurring st) dss)"
      unfolding recurring_foldl w using cursors_after [OF l assms(2)] .
    moreover have "docs (foldl apply_write st batch) =
        (\<lambda>c. docs st c @ materialized c (zip (recurring st) dss))"
      by (rule ext) (simp add: docs_foldl w docs_added_writes_for)
    ultimately show ?thesis by (cases "foldl apply_write st batch") simp
  qed
  have "out = (if accepts batch then Returned (foldl apply_write st batch) else Threw st)"
    using assms(1) calls by (auto simp add: on_recurring_snapshot_def batchSubmit_def)
  with l d calls st' w show ?thesis by auto
qed

text \<open>
  The example of the specification on a store that rejects the batch: the run throws and
  the store is unchanged.
\<close>

theorem one_batch_all_or_nothing_witness:
  "on_recurring_snapshot utc_host (\<lambda>batch. False) (MakeDate (iso_date 2024 5 1) (10 * msPerHour))
     \<lparr>docs = (\<lambda>c. []),
      recurring = [\<lparr>item_id = ''r1'', item_type = ''expense'', frequency = ''monthly'',
        startDate = iso_date 2024 1 15, lastProcessed = None, details = ()\<rparr>]\<rparr> =
     Some (Threw
       \<lparr>docs = (\<lambda>c. []),
        recurring = [\<lparr>item_id = ''r1'', item_type = ''expense'', frequency = ''monthly'',
          startDate = iso_date 2024 1 15, lastProcessed = None, details = ()\<rparr>]\<rparr>)
   \<and> distinct (map item_id [\<lparr>item_id = ''r1'', item_type = ''expense'', frequency = ''monthly'',
        startDate = iso_date 2024 1 15, lastProcessed = None, details = ()\<rparr>])
   \<and> (\<exists>dss. length dss = 1
        \<and> processRecurringTransactions utc_host
            [\<lparr>item_id = ''r1'', item_type = ''expense'', frequency = ''monthly'',
              startDate = iso_date 2024 1 15, lastProcessed = None, details = ()\<rparr>]
            (MakeDate (iso_date 2024 5 1) (10 * msPerHour)) =
            Some [Batch_commit (writes_for (zip
              [\<lparr>item_id = ''r1'', item_type = ''expense'', frequency = ''monthly'',
                startDate = iso_date 2024 1 15, lastProcessed = None, details = ()\<rparr>] dss))])"
proof -
  have run: "on_recurring_snapshot utc_host (\<lambda>batch. False)
     (MakeDate (iso_date 2024 5 1) (10 * msPerHour))
     \<lparr>docs = (\<lambda>c. []),
      recurring = [\<lparr>item_id = ''r1'', item_type = ''expense'', frequency = ''monthly'',
        startDate = iso_date 2024 1 15, lastProcessed = None, details = ()\<rparr>]\<rparr> =
     Some (Threw
       \<lparr>docs = (\<lambda>c. []),
        recurring = [\<lparr>item_id = ''r1'', item_type = ''expense'', frequency = ''monthly'',
          startDate = iso_date 2024 1 15, lastProcessed = None, details = ()\<rparr>]\<rparr>)"
    by (simp add: on_recurring_snapshot_def processRecurringTransactions_def local_midnights
        utc_may1_batch batchSubmit_def del: for_items.simps)
  have d: "distinct (map item_id (recurring
     \<lparr>docs = (\<lambda>c. []),
      recurring = [\<lparr>item_id = ''r1'', item_type = ''expense'', frequency = ''monthly'',
        startDate = iso_date 2024 1 15, lastProcessed = None, details = ()\<rparr>]\<rparr>))"
    by simp
  from one_batch_all_or_nothing [OF run d] obtain dss where
    "length dss = 1" and
    "processRecurringTransactions utc_host
            [\<lparr>item_id = ''r1'', item_type = ''expense'', frequency = ''monthly'',
              startDate = iso_date 2024 1 15, lastProcessed = None, details = ()\<rparr>]
            (MakeDate (iso_date 2024 5 1) (10 * msPerHour)) =
            Some [Batch_commit (writes_for (zip
              [\<lparr>item_id = ''r1'', item_type = ''expense'', frequency = ''monthly'',
                startDate = iso_date 2024 1 15, lastProcessed = None, details = ()\<rparr>] dss))]"
    by auto
  with run show ?thesis by auto
qed

text \<open>
  Claim C10. For a template whose frequency is \<open>monthly\<close> or \<open>yearly\<close> every iteration
  strictly advances the due date, the due date reaches today after finitely many
  iterations, and the loop returns, on every host. For a template of any other frequency
  whose cursor is strictly before today the loop body leaves the due date as it is and the
  loop never returns.
\<close>

theorem catch_up_termination:
  "(frequency item = ''monthly'' \<or> frequency item = ''yearly'' \<longrightarrow>
      c < next_due h (frequency item) c
      \<and> (\<exists>n. \<not> (next_due h (frequency item) ^^ n) c < today)
      \<and> (\<exists>b. catch_up h item today c batch = Some b))
   \<and> (frequency item \<noteq> ''monthly'' \<and> frequency item \<noteq> ''yearly'' \<and> c < today \<longrightarrow>
      next_due h (frequency item) c = c \<and> catch_up h item today c batch = None)"
proof (intro conjI impI)
  assume p: "frequency item = ''monthly'' \<or> frequency item = ''yearly''"
  then show "c < next_due h (frequency item) c" by (rule next_due_advances)
  from p have "frequency item = ''monthly'' \<or> frequency item = ''yearly'' \<or> \<not> c < today"
    by blast
  from catch_up_returns [OF this, where batch = batch and h = h]
  show "\<exists>n. \<not> (next_due h (frequency item) ^^ n) c < today"
    and "\<exists>b. catch_up h item today c batch = Some b"
    by blast+
next
  assume s: "frequency item \<noteq> ''monthly'' \<and> frequency item \<noteq> ''yearly'' \<and> c < today"
  then show "next_due h (frequency item) c = c" by (simp add: next_due_stuck)
  from s show "catch_up h item today c batch = None" by (simp add: catch_up_stuck)
qed

text \<open>A yearly and a weekly template of 2024-01-15 with today 2024-05-01, on the Berlin host.\<close>

theorem catch_up_termination_witness:
  "(\<exists>b. catch_up berlin_2024 \<lparr>item_id = ''r1'', item_type = ''expense'', frequency = ''yearly'',
        startDate = iso_date 2024 1 15, lastProcessed = None, details = ()\<rparr>
        (parse_iso_date (iso_date 2024 5 1)) (parse_iso_date (iso_date 2024 1 15)) [] = Some b)
   \<and> parse_iso_date (iso_date 2024 1 15) < parse_iso_date (iso_date 2024 5 1)
   \<and> catch_up berlin_2024 \<lparr>item_id = ''r2'', item_type = ''expense'', frequency = ''weekly'',
        startDate = iso_date 2024 1 15, lastProcessed = None, details = ()\<rparr>
        (parse_iso_date (iso_date 2024 5 1)) (parse_iso_date (iso_date 2024 1 15)) [] = None"
  using
    catch_up_termination [of "\<lparr>item_id = ''r1'', item_type = ''expense'', frequency = ''yearly'',
        startDate = iso_date 2024 1 15, lastProcessed = None, details = ()\<rparr>"
      "parse_iso_date (iso_date 2024 1 15)" berlin_2024 "parse_iso_date (iso_date 2024 5 1)" "[]",
      THEN conjunct1]
    catch_up_termination [of "\<lparr>item_id = ''r2'', item_type = ''expense'', frequency = ''weekly'',
        startDate = iso_date 2024 1 15, lastProcessed = None, details = ()\<rparr>"
      "parse_iso_date (iso_date 2024 1 15)" berlin_2024 "parse_iso_date (iso_date 2024 5 1)" "[]",
      THEN conjunct2]
  by (simp add: utc_steps)

section \<open>Balance Aggregator\<close>

text \<open>
  The fields the aggregations read of a document: \<open>date\<close> (an ISO string), \<open>amount\<close> and
  \<open>currency\<close> of transactions and incomes alike, and \<open>type\<close>, \<open>category\<close>, \<open>saver\<close> and
  \<open>liabilityId\<close> of a transaction (\<open>None\<close> is a field the document does not have). An
  income is an \<open>entry\<close>.
\<close>

record entry =
  date :: day
  amount :: real
  currency :: string

record transaction = entry +
  type :: string
  category :: string
  saver :: "string option"
  liabilityId :: "string option"

text \<open>
  The helpers of \<open>calculateBalances\<close>, in the order of the source: \<open>new Date(item.date)\<close>
  reads the ISO string in UTC, \<open>startOfSelectedMonth\<close> is a local midnight, and \<open>getMonth\<close>
  and \<open>getFullYear\<close> are local.
\<close>

definition filterByCurrency :: "string \<Rightarrow> 'a entry_scheme \<Rightarrow> bool" where
  "filterByCurrency cur item = (currency item = cur)"

definition filterByDate :: "time \<Rightarrow> 'a entry_scheme \<Rightarrow> bool" where
  "filterByDate startOfSelectedMonth item = (parse_iso_date (date item) < startOfSelectedMonth)"

definition filterByMonth :: "host \<Rightarrow> int \<Rightarrow> int \<Rightarrow> 'a entry_scheme \<Rightarrow> bool" where
  "filterByMonth h selectedMonth selectedYear item =
     (getMonth h (parse_iso_date (date item)) = selectedMonth
      \<and> getFullYear h (parse_iso_date (date item)) = selectedYear)"

definition sumAmount :: "'a entry_scheme list \<Rightarrow> real" where
  "sumAmount items = foldl (\<lambda>sum t. sum + amount t) 0 items"

text \<open>\<open>['expense', 'savings', 'liabilityPayment'].includes(t.type)\<close>\<close>

definition outflow :: "transaction \<Rightarrow> bool" where
  "outflow t = (type t \<in> set [''expense'', ''savings'', ''liabilityPayment''])"

record balances =
  "opening" :: real
  cashFlow :: real
  closing :: real

definition calculateBalances ::
  "host \<Rightarrow> transaction list \<Rightarrow> entry list \<Rightarrow> int \<Rightarrow> int \<Rightarrow> string \<Rightarrow> balances" where
  "calculateBalances h transactions incomes selectedYear selectedMonth cur =
     (let startOfSelectedMonth = new_Date h selectedYear selectedMonth 1;
          prevIncomes = sumAmount (filter (filterByDate startOfSelectedMonth)
            (filter (filterByCurrency cur) incomes));
          prevTransactions = filter (filterByDate startOfSelectedMonth)
            (filter (filterByCurrency cur) transactions);
          opening = prevIncomes - sumAmount (filter outflow prevTransactions)
            + sumAmount (filter (\<lambda>t. type t = ''savingsWithdrawal'') prevTransactions);
          monthlyIncomesTotal = sumAmount (filter (filterByMonth h selectedMonth selectedYear)
            (filter (filterByCurrency cur) incomes));
          monthlyTransactionsFiltered = filter (filterByMonth h selectedMonth selectedYear)
            (filter (filterByCurrency cur) transactions);
          cashFlow = monthlyIncomesTotal - sumAmount (filter outflow monthlyTransactionsFiltered)
            + sumAmount (filter (\<lambda>t. type t = ''savingsWithdrawal'') monthlyTransactionsFiltered)
      in \<lparr>opening = opening, cashFlow = cashFlow, closing = opening + cashFlow\<rparr>)"


lemma filter_other_currency:
  "a \<noteq> b \<Longrightarrow>
   filter (filterByCurrency a) (filter (\<lambda>t. currency t \<noteq> b) xs) = filter (filterByCurrency a) xs"
  by (induction xs) (auto simp add: filterByCurrency_def)

lemma filter_same_currency:
  "filter (filterByCurrency a) (filter (\<lambda>t. currency t = a) xs) = filter (filterByCurrency a) xs"
  by (induction xs) (auto simp add: filterByCurrency_def)

lemma filter_not_INR:
  "filter (filterByCurrency ''EUR'') (filter (\<lambda>t. currency t \<noteq> ''INR'') xs) =
   filter (filterByCurrency ''EUR'') xs"
  by (rule filter_other_currency) simp

lemma filter_not_EUR:
  "filter (filterByCurrency ''INR'') (filter (\<lambda>t. currency t \<noteq> ''EUR'') xs) =
   filter (filterByCurrency ''INR'') xs"
  by (rule filter_other_currency) simp


lemma new_york_may:
  "new_Date new_york_2024 2024 4 1 = MakeDate (iso_date 2024 5 1) (4 * msPerHour)"
  "parse_iso_date (iso_date 2024 5 1) < MakeDate (iso_date 2024 5 1) (4 * msPerHour)"
  "getMonth new_york_2024 (parse_iso_date (iso_date 2024 5 1)) = 3"
  "getFullYear new_york_2024 (parse_iso_date (iso_date 2024 5 1)) = 2024"
  "new_Date utc_host 2024 4 1 = parse_iso_date (iso_date 2024 5 1)"
  "getMonth utc_host (parse_iso_date (iso_date 2024 5 1)) = 4"
  "getFullYear utc_host (parse_iso_date (iso_date 2024 5 1)) = 2024"
  by code_simp+

section \<open>Claims about the Balance Aggregator\<close>

text \<open>
  Claim C4, on an expense of 30 EUR and an income of 100 EUR, both dated 2024-05-01, with
  target May 2024, on a host in the time zone of New York. The date is read in UTC, that is
  2024-04-30 at 20:00 local time, while the start of the target month is the local
  midnight of 2024-05-01 and the month and year of an entry are read in local time: both
  entries are dated before the start of the month and are of April, so they count in
  \<open>opening\<close> (70) and not in \<open>cashFlow\<close> (0). On a host in UTC they count in \<open>cashFlow\<close> (70)
  and not in \<open>opening\<close> (0).
\<close>

theorem first_of_month_on_new_york:
  "calculateBalances new_york_2024
     [\<lparr>date = iso_date 2024 5 1, amount = 30, currency = ''EUR'', type = ''expense'',
       category = ''Grocery'', saver = None, liabilityId = None\<rparr>]
     [\<lparr>date = iso_date 2024 5 1, amount = 100, currency = ''EUR''\<rparr>] 2024 4 ''EUR'' =
     \<lparr>opening = 70, cashFlow = 0, closing = 70\<rparr>
   \<and> calculateBalances utc_host
     [\<lparr>date = iso_date 2024 5 1, amount = 30, currency = ''EUR'', type = ''expense'',
       category = ''Grocery'', saver = None, liabilityId = None\<rparr>]
     [\<lparr>date = iso_date 2024 5 1, amount = 100, currency = ''EUR''\<rparr>] 2024 4 ''EUR'' =
     \<lparr>opening = 0, cashFlow = 70, closing = 70\<rparr>"
  by (simp add: calculateBalances_def sumAmount_def filterByCurrency_def filterByDate_def
      filterByMonth_def outflow_def new_york_may)

text \<open>
  Claim C5. Currency isolation: the three EUR figures are the same when every INR
  transaction and income is removed, the three INR figures are the same when every EUR
  entry is removed, and the figures of any currency are those of its own entries alone,
  for every target month and on every host.
\<close>

theorem currency_isolation:
  "calculateBalances h transactions incomes selectedYear selectedMonth ''EUR'' =
     calculateBalances h (filter (\<lambda>t. currency t \<noteq> ''INR'') transactions)
       (filter (\<lambda>i. currency i \<noteq> ''INR'') incomes) selectedYear selectedMonth ''EUR''
   \<and> calculateBalances h transactions incomes selectedYear selectedMonth ''INR'' =
     calculateBalances h (filter (\<lambda>t. currency t \<noteq> ''EUR'') transactions)
       (filter (\<lambda>i. currency i \<noteq> ''EUR'') incomes) selectedYear selectedMonth ''INR''
   \<and> calculateBalances h transactions incomes selectedYear selectedMonth cur =
     calculateBalances h (filter (\<lambda>t. currency t = cur) transactions)
       (filter (\<lambda>i. currency i = cur) incomes) selectedYear selectedMonth cur"
  unfolding calculateBalances_def filter_not_INR filter_not_EUR filter_same_currency
  by simp

section \<open>History page: deletion of old entries\<close>











section \<open>Net Worth and Savings Aggregator\<close>

text \<open>
  A liability (\<open>id\<close>, \<open>totalAmount\<close>, \<open>currency\<close>), the row \<open>{ ...liability, paid, balance }\<close>
  computed for it, and an asset (\<open>value\<close>, \<open>currency\<close>).
\<close>

record liability =
  liability_id :: string
  totalAmount :: real
  liability_currency :: string

record liability_detail = liability +
  paid :: real
  balance :: real

record asset =
  asset_value :: real
  asset_currency :: string

record savings =
  eur :: real
  inr :: real

definition calculateByCurrency :: "transaction list \<Rightarrow> string \<Rightarrow> real" where
  "calculateByCurrency personTransactions cur =
     (let deposits = foldl (\<lambda>sum t. sum + amount t) 0
            (filter (\<lambda>t. (type t = ''savings'' \<or> type t = ''openingBalance'') \<and> currency t = cur)
               personTransactions);
          withdrawals = foldl (\<lambda>sum t. sum + amount t) 0
            (filter (\<lambda>t. type t = ''savingsWithdrawal'' \<and> currency t = cur) personTransactions)
      in deposits - withdrawals)"

definition calculateDetailedSavings :: "transaction list \<Rightarrow> string \<Rightarrow> savings" where
  "calculateDetailedSavings transactions person =
     (let personTransactions = filter (\<lambda>t. saver t = Some person) transactions
      in \<lparr>eur = calculateByCurrency personTransactions ''EUR'',
          inr = calculateByCurrency personTransactions ''INR''\<rparr>)"

text \<open>The function mapped over \<open>liabilities\<close> by \<open>liabilityDetails\<close>.\<close>

definition liabilityDetail :: "transaction list \<Rightarrow> liability \<Rightarrow> liability_detail" where
  "liabilityDetail transactions l =
     (let payments = foldl (\<lambda>sum t. sum + amount t) 0
            (filter (\<lambda>t. type t = ''liabilityPayment'' \<and> liabilityId t = Some (liability_id l))
               transactions);
          balance = totalAmount l - payments
      in \<lparr>liability_id = liability_id l, totalAmount = totalAmount l,
          liability_currency = liability_currency l, paid = payments, balance = balance\<rparr>)"

definition liabilityDetails :: "liability list \<Rightarrow> transaction list \<Rightarrow> liability_detail list" where
  "liabilityDetails liabilities transactions = map (liabilityDetail transactions) liabilities"

record net_worth =
  netWorthEUR :: real
  netWorthINR :: real

definition netWorth :: "asset list \<Rightarrow> transaction list \<Rightarrow> liability list \<Rightarrow> net_worth" where
  "netWorth assets transactions liabilities =
     (let husbandSavings = calculateDetailedSavings transactions ''Husband'';
          wifeSavings = calculateDetailedSavings transactions ''Wife'';
          details = liabilityDetails liabilities transactions;
          totalAssetsEUR = foldl (\<lambda>sum a. sum + asset_value a) 0
            (filter (\<lambda>a. asset_currency a = ''EUR'') assets);
          totalAssetsINR = foldl (\<lambda>sum a. sum + asset_value a) 0
            (filter (\<lambda>a. asset_currency a = ''INR'') assets);
          totalSavingsEUR = eur husbandSavings + eur wifeSavings;
          totalSavingsINR = inr husbandSavings + inr wifeSavings;
          totalLiabilitiesEUR = foldl (\<lambda>sum l. sum + balance l) 0
            (filter (\<lambda>l. liability_currency l = ''EUR'') details);
          totalLiabilitiesINR = foldl (\<lambda>sum l. sum + balance l) 0
            (filter (\<lambda>l. liability_currency l = ''INR'') details)
      in \<lparr>netWorthEUR = totalAssetsEUR + totalSavingsEUR - totalLiabilitiesEUR,
          netWorthINR = totalAssetsINR + totalSavingsINR - totalLiabilitiesINR\<rparr>)"

lemma foldl_plus: "foldl (\<lambda>sum x. sum + f x) (a::real) xs = a + sum_list (map f xs)"
  by (induction xs arbitrary: a) simp_all

text \<open>The sum of the payments that reference a liability id.\<close>

definition payments_of :: "transaction list \<Rightarrow> string \<Rightarrow> real" where
  "payments_of transactions lid =
     sum_list (map amount
       [t \<leftarrow> transactions. type t = ''liabilityPayment'' \<and> liabilityId t = Some lid])"

lemma balance_eq:
  "balance (liabilityDetail transactions l) = totalAmount l - payments_of transactions (liability_id l)"
  by (simp add: liabilityDetail_def Let_def foldl_plus payments_of_def)

lemma liability_currency_detail:
  "liability_currency (liabilityDetail transactions l) = liability_currency l"
  by (simp add: liabilityDetail_def Let_def)

lemma total_liabilities:
  "sum_list (map balance
     (filter (\<lambda>l. liability_currency l = cur) (liabilityDetails liabilities transactions))) =
   sum_list (map (\<lambda>l. totalAmount l - payments_of transactions (liability_id l))
     [l \<leftarrow> liabilities. liability_currency l = cur])"
  by (induction liabilities)
    (simp_all add: liabilityDetails_def balance_eq liability_currency_detail)

text \<open>
  Claim C8. The balance computed for a liability is its \<open>totalAmount\<close> minus the sum of the
  amounts of the transactions of type \<open>liabilityPayment\<close> whose \<open>liabilityId\<close> is its id, with
  no clamping: it is negative when the payments exceed \<open>totalAmount\<close>. The net worth of each
  currency subtracts these balances as they are.
\<close>

theorem liability_overpayment:
  "liabilityDetails liabilities transactions = map (liabilityDetail transactions) liabilities
   \<and> balance (liabilityDetail transactions l) =
       totalAmount l - sum_list (map amount
         [t \<leftarrow> transactions. type t = ''liabilityPayment'' \<and> liabilityId t = Some (liability_id l)])
   \<and> (totalAmount l < payments_of transactions (liability_id l) \<longrightarrow>
        balance (liabilityDetail transactions l) < 0)
   \<and> netWorthEUR (netWorth assets transactions liabilities) =
       sum_list (map asset_value [a \<leftarrow> assets. asset_currency a = ''EUR''])
       + (eur (calculateDetailedSavings transactions ''Husband'')
          + eur (calculateDetailedSavings transactions ''Wife''))
       - sum_list (map (\<lambda>l. totalAmount l - payments_of transactions (liability_id l))
           [l \<leftarrow> liabilities. liability_currency l = ''EUR''])
   \<and> netWorthINR (netWorth assets transactions liabilities) =
       sum_list (map asset_value [a \<leftarrow> assets. asset_currency a = ''INR''])
       + (inr (calculateDetailedSavings transactions ''Husband'')
          + inr (calculateDetailedSavings transactions ''Wife''))
       - sum_list (map (\<lambda>l. totalAmount l - payments_of transactions (liability_id l))
           [l \<leftarrow> liabilities. liability_currency l = ''INR''])"
proof (intro conjI impI)
  show "liabilityDetails liabilities transactions = map (liabilityDetail transactions) liabilities"
    by (simp add: liabilityDetails_def)
  show "balance (liabilityDetail transactions l) =
       totalAmount l - sum_list (map amount
         [t \<leftarrow> transactions. type t = ''liabilityPayment'' \<and> liabilityId t = Some (liability_id l)])"
    by (simp add: balance_eq payments_of_def)
  show "balance (liabilityDetail transactions l) < 0"
    if "totalAmount l < payments_of transactions (liability_id l)"
    using that by (simp add: balance_eq)
  show "netWorthEUR (netWorth assets transactions liabilities) =
       sum_list (map asset_value [a \<leftarrow> assets. asset_currency a = ''EUR''])
       + (eur (calculateDetailedSavings transactions ''Husband'')
          + eur (calculateDetailedSavings transactions ''Wife''))
       - sum_list (map (\<lambda>l. totalAmount l - payments_of transactions (liability_id l))
           [l \<leftarrow> liabilities. liability_currency l = ''EUR''])"
    by (simp add: netWorth_def Let_def total_liabilities foldl_plus)
  show "netWorthINR (netWorth assets transactions liabilities) =
       sum_list (map asset_value [a \<leftarrow> assets. asset_currency a = ''INR''])
       + (inr (calculateDetailedSavings transactions ''Husband'')
          + inr (calculateDetailedSavings transactions ''Wife''))
       - sum_list (map (\<lambda>l. totalAmount l - payments_of transactions (liability_id l))
           [l \<leftarrow> liabilities. liability_currency l = ''INR''])"
    by (simp add: netWorth_def Let_def total_liabilities foldl_plus)
qed

text \<open>A liability of 100 paid with 150: the balance is -50 and the net worth is 50.\<close>

theorem liability_overpayment_witness:
  "(100::real) < payments_of
      [\<lparr>date = iso_date 2024 4 15, amount = 150, currency = ''EUR'', type = ''liabilityPayment'',
        category = [], saver = None, liabilityId = Some ''loan''\<rparr>] ''loan''
   \<and> balance (liabilityDetail
      [\<lparr>date = iso_date 2024 4 15, amount = 150, currency = ''EUR'', type = ''liabilityPayment'',
        category = [], saver = None, liabilityId = Some ''loan''\<rparr>]
      \<lparr>liability_id = ''loan'', totalAmount = 100, liability_currency = ''EUR''\<rparr>) = - 50
   \<and> netWorthEUR (netWorth []
      [\<lparr>date = iso_date 2024 4 15, amount = 150, currency = ''EUR'', type = ''liabilityPayment'',
        category = [], saver = None, liabilityId = Some ''loan''\<rparr>]
      [\<lparr>liability_id = ''loan'', totalAmount = 100, liability_currency = ''EUR''\<rparr>]) = 50"
proof -
  note r = liability_overpayment [of
      "[\<lparr>liability_id = ''loan'', totalAmount = 100, liability_currency = ''EUR''\<rparr>]"
      "[\<lparr>date = iso_date 2024 4 15, amount = 150, currency = ''EUR'', type = ''liabilityPayment'',
        category = [], saver = None, liabilityId = Some ''loan''\<rparr>]"
      "\<lparr>liability_id = ''loan'', totalAmount = 100, liability_currency = ''EUR''\<rparr>" "[]"]
  from r show ?thesis
    by (simp add: payments_of_def calculateDetailedSavings_def calculateByCurrency_def)
qed

section \<open>Budget Variance Calculator\<close>

text \<open>
  The values the budget computation meets: a number, \<open>undefined\<close>, or a value of another
  kind (a function or the prototype object inherited from \<open>Object.prototype\<close>, or the string
  that \<open>+\<close> makes of one of them and a number). A value of the third kind is truthy, compares
  as \<open>NaN\<close>, and has no \<open>toFixed\<close>.
\<close>

datatype jsval = Undefined | Number real | NotNumber

text \<open>
  A plain object used as a dictionary (\<open>budgets\<close>, \<open>expensesByCategory\<close>): its own properties
  in insertion order. \<open>obj[k]\<close> finds an own property first and then the properties every
  plain object inherits from \<open>Object.prototype\<close>. The fields of \<open>budgets\<close> are those of a store
  document, whose names cannot be \<open>__proto__\<close>.
\<close>

type_synonym js_object = "(string \<times> jsval) list"

definition object_prototype_members :: "string list" where
  "object_prototype_members =
     [''constructor'', ''__defineGetter__'', ''__defineSetter__'', ''hasOwnProperty'',
      ''__lookupGetter__'', ''__lookupSetter__'', ''isPrototypeOf'', ''propertyIsEnumerable'',
      ''toString'', ''valueOf'', ''__proto__'', ''toLocaleString'']"

definition get_prop :: "js_object \<Rightarrow> string \<Rightarrow> jsval" where
  "get_prop obj k =
     (case map_of obj k of
        Some v \<Rightarrow> v
      | None \<Rightarrow> if k \<in> set object_prototype_members then NotNumber else Undefined)"

text \<open>
  \<open>obj[k] = v\<close> on an object built by the code: the key keeps its place when the object has
  it and is added last otherwise; assigning a string to \<open>__proto__\<close> calls the inherited
  setter, which ignores it.
\<close>

definition set_prop :: "js_object \<Rightarrow> string \<Rightarrow> jsval \<Rightarrow> js_object" where
  "set_prop obj k v = (if k = ''__proto__'' then obj else AList.update k v obj)"

text \<open>\<open>v || 0\<close>: \<open>undefined\<close> and \<open>0\<close> are falsy.\<close>

definition or_0 :: "jsval \<Rightarrow> jsval" where
  "or_0 v = (case v of Undefined \<Rightarrow> Number 0 | Number x \<Rightarrow> Number x | NotNumber \<Rightarrow> NotNumber)"

text \<open>\<open>v + x\<close> for a number \<open>x\<close>: the sum of two numbers, a string otherwise.\<close>

definition plus_number :: "jsval \<Rightarrow> real \<Rightarrow> jsval" where
  "plus_number v x = (case v of Number a \<Rightarrow> Number (a + x) | _ \<Rightarrow> NotNumber)"

text \<open>\<open>a > b\<close>: a comparison with \<open>NaN\<close> is false.\<close>

definition js_gt :: "jsval \<Rightarrow> jsval \<Rightarrow> bool" where
  "js_gt a b = (case (a, b) of (Number x, Number y) \<Rightarrow> x > y | _ \<Rightarrow> False)"

text \<open>
  \<open>Object.keys\<close>: the own keys that are array indices (canonical decimal strings below
  \<open>2^32 - 1\<close>) in ascending numeric order, then the other keys in insertion order.
\<close>

definition index_value :: "string \<Rightarrow> nat" where
  "index_value s = foldl (\<lambda>n c. 10 * n + (of_char c - 48)) 0 s"

definition is_array_index :: "string \<Rightarrow> bool" where
  "is_array_index s =
     (s \<noteq> [] \<and> list_all (\<lambda>c. c \<in> set ''0123456789'') s
      \<and> (s = ''0'' \<or> hd s \<noteq> CHR ''0'') \<and> index_value s < 2 ^ 32 - 1)"

definition Object_keys :: "js_object \<Rightarrow> string list" where
  "Object_keys obj =
     sort_key index_value (filter is_array_index (map fst obj))
     @ filter (\<lambda>k. \<not> is_array_index k) (map fst obj)"

text \<open>\<open>[...new Set(xs)]\<close> keeps the first occurrence of each element.\<close>

definition new_Set :: "'a list \<Rightarrow> 'a list" where
  "new_Set xs = foldl (\<lambda>acc x. if x \<in> set acc then acc else acc @ [x]) [] xs"

text \<open>
  \<open>toEUR\<close> with \<open>currencyRates.INR\<close> as its first argument; the rate is 90 until a fetched
  rate that is truthy replaces it, so it is never 0.
\<close>

definition toEUR :: "real \<Rightarrow> real \<Rightarrow> string \<Rightarrow> real" where
  "toEUR rateINR amt cur = (if cur = ''INR'' then amt / rateINR else amt)"

text \<open>
  The memo of the dashboard: the transactions of the selected month and year, both read in
  local time from a date parsed in UTC; the expenses among them, accumulated by category
  with \<open>acc[t.category] = (acc[t.category] || 0) + toEUR(t.amount, t.currency)\<close> from \<open>{}\<close>; and
  the category names.
\<close>

definition monthlyTransactions :: "host \<Rightarrow> transaction list \<Rightarrow> int \<Rightarrow> int \<Rightarrow> transaction list" where
  "monthlyTransactions h transactions selectedYear selectedMonth =
     filter (\<lambda>t. getMonth h (parse_iso_date (date t)) = selectedMonth
                \<and> getFullYear h (parse_iso_date (date t)) = selectedYear) transactions"

definition expensesByCategory ::
  "host \<Rightarrow> real \<Rightarrow> transaction list \<Rightarrow> int \<Rightarrow> int \<Rightarrow> js_object" where
  "expensesByCategory h rateINR transactions selectedYear selectedMonth =
     foldl (\<lambda>acc t. set_prop acc (category t)
              (plus_number (or_0 (get_prop acc (category t)))
                 (toEUR rateINR (amount t) (currency t))))
       [] (filter (\<lambda>t. type t = ''expense'')
             (monthlyTransactions h transactions selectedYear selectedMonth))"

definition allCategoryNames :: "js_object \<Rightarrow> js_object \<Rightarrow> string list" where
  "allCategoryNames budgets byCategory = new_Set (Object_keys budgets @ Object_keys byCategory)"

text \<open>
  What the dashboard computes for each category name: \<open>budget\<close>, \<open>actual\<close>, \<open>percentage\<close>,
  \<open>isOverBudget\<close>, and whether the row is shown as over budget
  (\<open>isOverBudget && budget > 0\<close>). The row calls \<open>actual.toFixed(2)\<close>, which throws a
  \<open>TypeError\<close> when \<open>actual\<close> is not a number, and \<open>budget.toFixed(2)\<close> only when \<open>budget > 0\<close>.
\<close>

datatype render_error = toFixed_is_not_a_function

record variance_row =
  row_category :: string
  budget :: jsval
  actual :: real
  percentage :: real
  isOverBudget :: bool
  over_budget_shown :: bool

definition variance_row_of :: "js_object \<Rightarrow> js_object \<Rightarrow> string \<Rightarrow> render_error + variance_row" where
  "variance_row_of budgets byCategory cat =
     (let budget = or_0 (get_prop budgets cat);
          actual = or_0 (get_prop byCategory cat)
      in case actual of
           Number a \<Rightarrow>
             (let percentage =
                    (case budget of Number b \<Rightarrow> if b > 0 then (a / b) * 100 else 0 | _ \<Rightarrow> 0);
                  isOverBudget = js_gt actual budget
              in Inr \<lparr>row_category = cat, budget = budget, actual = a, percentage = percentage,
                      isOverBudget = isOverBudget,
                      over_budget_shown = (isOverBudget \<and> js_gt budget (Number 0))\<rparr>)
         | _ \<Rightarrow> Inl toFixed_is_not_a_function)"

text \<open>\<open>allCategoryNames.map(...)\<close>: the rows in order; the first row that throws ends the render.\<close>

fun render_rows :: "js_object \<Rightarrow> js_object \<Rightarrow> string list \<Rightarrow> render_error + variance_row list" where
  "render_rows budgets byCategory [] = Inr []"
| "render_rows budgets byCategory (cat # cats) =
     (case variance_row_of budgets byCategory cat of
        Inl e \<Rightarrow> Inl e
      | Inr row \<Rightarrow>
          (case render_rows budgets byCategory cats of
             Inl e \<Rightarrow> Inl e
           | Inr rows \<Rightarrow> Inr (row # rows)))"

definition budget_variance ::
  "host \<Rightarrow> real \<Rightarrow> transaction list \<Rightarrow> js_object \<Rightarrow> int \<Rightarrow> int
     \<Rightarrow> render_error + variance_row list" where
  "budget_variance h rateINR transactions budgets selectedYear selectedMonth =
     (let byCategory = expensesByCategory h rateINR transactions selectedYear selectedMonth
      in render_rows budgets byCategory (allCategoryNames budgets byCategory))"

lemma category_keys:
  "is_array_index ''constructor'' = False" "is_array_index ''Rent'' = False"
  "is_array_index ''Grocery'' = False"
  by (simp_all add: is_array_index_def)

text \<open>
  Claim C7, on the budget set \<open>{constructor: 50}\<close> with no transaction and on an expense
  dated 2024-05-01 with target May 2024. A category that is only in the budget set and is
  named like a member of \<open>Object.prototype\<close> does not appear with \<open>actual = 0\<close>: its \<open>actual\<close> is
  the inherited function and the render throws, where the category \<open>Rent\<close> gives the row with
  \<open>actual = 0\<close>. And on a host west of Greenwich the expense dated on the 1st of May is not
  among that month's expenses, so its category is missing from the output, where a host in
  UTC shows it with \<open>actual = 20\<close>.
\<close>

theorem budget_variance_on_constructor:
  "budget_variance utc_host 90 [] [(''constructor'', Number 50)] 2024 4 =
     Inl toFixed_is_not_a_function
   \<and> budget_variance utc_host 90 [] [(''Rent'', Number 50)] 2024 4 =
     Inr [\<lparr>row_category = ''Rent'', budget = Number 50, actual = 0, percentage = 0,
           isOverBudget = False, over_budget_shown = False\<rparr>]
   \<and> budget_variance new_york_2024 90
       [\<lparr>date = iso_date 2024 5 1, amount = 20, currency = ''EUR'', type = ''expense'',
         category = ''Grocery'', saver = None, liabilityId = None\<rparr>] [] 2024 4 = Inr []
   \<and> budget_variance utc_host 90
       [\<lparr>date = iso_date 2024 5 1, amount = 20, currency = ''EUR'', type = ''expense'',
         category = ''Grocery'', saver = None, liabilityId = None\<rparr>] [] 2024 4 =
     Inr [\<lparr>row_category = ''Grocery'', budget = Number 0, actual = 20, percentage = 0,
           isOverBudget = True, over_budget_shown = False\<rparr>]"
  by (simp add: budget_variance_def expensesByCategory_def monthlyTransactions_def
      allCategoryNames_def Object_keys_def category_keys new_Set_def variance_row_of_def
      get_prop_def set_prop_def or_0_def plus_number_def js_gt_def toEUR_def
      object_prototype_members_def new_york_may)

section \<open>CSV import\<close>

text \<open>
  The parser yields each line as an array of strings. A cell read from a row is a string or
  \<open>undefined\<close> (\<open>None\<close>); it is truthy when it is a non-empty string.
\<close>

type_synonym cell = "string option"

definition truthy :: "cell \<Rightarrow> bool" where
  "truthy c = (case c of None \<Rightarrow> False | Some s \<Rightarrow> s \<noteq> [])"

definition cell_at :: "string list \<Rightarrow> nat \<Rightarrow> cell" where
  "cell_at row i = (if i < length row then Some (row ! i) else None)"

record csv_row =
  row_date :: cell
  row_description :: cell
  debit :: cell
  credit :: cell

definition to_row :: "string list \<Rightarrow> csv_row" where
  "to_row row = \<lparr>row_date = cell_at row 0, row_description = cell_at row 1,
     debit = cell_at row 2, credit = cell_at row 3\<rparr>"

text \<open>The filter \<open>row.date && (row.debit || row.credit)\<close>.\<close>

definition has_data :: "csv_row \<Rightarrow> bool" where
  "has_data row = (truthy (row_date row) \<and> (truthy (debit row) \<or> truthy (credit row)))"

definition parsedData :: "string list list \<Rightarrow> csv_row list" where
  "parsedData data = filter has_data (map to_row (drop 1 data))"

text \<open>
  The second pass rewrites each date from \<open>DD/MM/YYYY\<close> to ISO. The conversion of one date
  string, \<open>toISODate\<close>, is a parameter: \<open>None\<close> is an invalid date, on which \<open>toISOString\<close>
  throws a \<open>RangeError\<close> and the whole import is abandoned.
\<close>

datatype import_error = TypeError | RangeError

fun formattedData :: "(string \<Rightarrow> string option) \<Rightarrow> csv_row list \<Rightarrow> import_error + csv_row list" where
  "formattedData toISODate [] = Inr []"
| "formattedData toISODate (row # rows) =
     (case row_date row of
        None \<Rightarrow> Inl TypeError
      | Some s \<Rightarrow>
          (case toISODate s of
             None \<Rightarrow> Inl RangeError
           | Some formattedDate \<Rightarrow>
               (case formattedData toISODate rows of
                  Inl e \<Rightarrow> Inl e
                | Inr rest \<Rightarrow> Inr (row\<lparr>row_date := Some formattedDate\<rparr> # rest))))"

definition handleFileChange ::
  "(string \<Rightarrow> string option) \<Rightarrow> string list list \<Rightarrow> import_error + csv_row list" where
  "handleFileChange toISODate data = formattedData toISODate (parsedData data)"

text \<open>
  The defaults the review dialog computes for the current row; \<open>parseFloat\<close> is a parameter
  (\<open>None\<close> is \<open>NaN\<close>).
\<close>

definition isDebit :: "(string \<Rightarrow> real option) \<Rightarrow> csv_row \<Rightarrow> bool" where
  "isDebit parseFloat current =
     (case debit current of
        None \<Rightarrow> False
      | Some s \<Rightarrow> s \<noteq> [] \<and> (case parseFloat s of None \<Rightarrow> False | Some v \<Rightarrow> v > 0))"

definition default_type :: "(string \<Rightarrow> real option) \<Rightarrow> csv_row \<Rightarrow> string" where
  "default_type parseFloat current = (if isDebit parseFloat current then ''expense'' else ''income'')"

definition default_amount :: "(string \<Rightarrow> real option) \<Rightarrow> csv_row \<Rightarrow> real option" where
  "default_amount parseFloat current =
     (case (if isDebit parseFloat current then debit current else credit current) of
        None \<Rightarrow> None
      | Some s \<Rightarrow> parseFloat s)"

text \<open>\<open>parseFloat\<close> and the date conversion at the strings of the examples below.\<close>

definition sample_parseFloat :: "string \<Rightarrow> real option" where
  "sample_parseFloat s = (if s = ''5'' then Some 5 else if s = ''7'' then Some 7 else None)"

definition sample_toISODate :: "string \<Rightarrow> string option" where
  "sample_toISODate s =
     (if s = ''15/03/2024'' then Some ''2024-03-15''
      else if s = ''16/03/2024'' then Some ''2024-03-16'' else None)"

lemma formattedData_shape:
  "formattedData f rows = Inr out \<Longrightarrow>
   map (\<lambda>r. (row_description r, debit r, credit r)) out =
     map (\<lambda>r. (row_description r, debit r, credit r)) rows
   \<and> map row_date out = map (\<lambda>r. case row_date r of None \<Rightarrow> None | Some s \<Rightarrow> f s) rows"
proof (induction rows arbitrary: out)
  case Nil
  then show ?case by simp
next
  case (Cons row rows)
  then show ?case by (auto split: option.splits sum.splits)
qed

text \<open>
  Claim C9, as stated, fails on a file of a header and two rows: the first row has a date
  and no amount, and is dropped although it is not missing its date; the second has a debit
  of 5 and a credit of 7, and defaults to \<open>expense\<close> although its credit is greater than 0.
\<close>

theorem csv_import_counterexample:
  "handleFileChange sample_toISODate
     [[''Date'', ''Description'', ''Debit'', ''Credit''],
      [''15/03/2024'', ''Coffee'', '''', ''''],
      [''16/03/2024'', ''Refund'', ''5'', ''7'']] =
     Inr [\<lparr>row_date = Some ''2024-03-16'', row_description = Some ''Refund'',
            debit = Some ''5'', credit = Some ''7''\<rparr>]
   \<and> truthy (row_date (to_row [''15/03/2024'', ''Coffee'', '''', '''']))
   \<and> sample_parseFloat ''7'' = Some 7
   \<and> default_type sample_parseFloat
        \<lparr>row_date = Some ''2024-03-16'', row_description = Some ''Refund'',
         debit = Some ''5'', credit = Some ''7''\<rparr> = ''expense''"
  by (simp add: handleFileChange_def parsedData_def to_row_def cell_at_def has_data_def
      truthy_def default_type_def isDebit_def sample_parseFloat_def sample_toISODate_def)

text \<open>
  Claim C9, amended. A row after the header is dropped if and only if it is missing its
  date or is missing every amount (both debit and credit). When the import completes, the
  rows to review are the rows kept, in order, with their dates rewritten. A row whose debit
  is greater than 0 defaults to type \<open>expense\<close>; every other row, in particular one with a
  credit greater than 0 and no debit greater than 0, defaults to type \<open>income\<close>.
\<close>

theorem csv_import_rows:
  assumes "row \<in> set (map to_row (drop 1 data))"
  shows "(row \<notin> set (parsedData data)) =
           (\<not> truthy (row_date row) \<or> (\<not> truthy (debit row) \<and> \<not> truthy (credit row)))
       \<and> (\<forall>out. handleFileChange toISODate data = Inr out \<longrightarrow>
            map (\<lambda>r. (row_description r, debit r, credit r)) out =
              map (\<lambda>r. (row_description r, debit r, credit r)) (parsedData data)
          \<and> map row_date out =
              map (\<lambda>r. case row_date r of None \<Rightarrow> None | Some s \<Rightarrow> toISODate s) (parsedData data))
       \<and> (\<forall>current s v. debit current = Some s \<and> s \<noteq> [] \<and> parseFloat s = Some v \<and> v > 0 \<longrightarrow>
            default_type parseFloat current = ''expense'')
       \<and> (\<forall>current. \<not> isDebit parseFloat current \<longrightarrow>
            default_type parseFloat current = ''income'')
       \<and> (\<forall>current. isDebit parseFloat current =
            (\<exists>s v. debit current = Some s \<and> s \<noteq> [] \<and> parseFloat s = Some v \<and> v > 0))"
proof (intro conjI allI impI)
  show "(row \<notin> set (parsedData data)) =
      (\<not> truthy (row_date row) \<or> (\<not> truthy (debit row) \<and> \<not> truthy (credit row)))"
    using assms by (auto simp add: parsedData_def has_data_def)
next
  fix out assume "handleFileChange toISODate data = Inr out"
  then have "formattedData toISODate (parsedData data) = Inr out"
    by (simp add: handleFileChange_def)
  from formattedData_shape [OF this]
  show "map (\<lambda>r. (row_description r, debit r, credit r)) out =
      map (\<lambda>r. (row_description r, debit r, credit r)) (parsedData data)"
    and "map row_date out =
      map (\<lambda>r. case row_date r of None \<Rightarrow> None | Some s \<Rightarrow> toISODate s) (parsedData data)"
    by simp_all
next
  fix current :: csv_row and s v
  assume "debit current = Some s \<and> s \<noteq> [] \<and> parseFloat s = Some v \<and> v > 0"
  then show "default_type parseFloat current = ''expense''"
    by (simp add: default_type_def isDebit_def)
next
  fix current :: csv_row assume "\<not> isDebit parseFloat current"
  then show "default_type parseFloat current = ''income''" by (simp add: default_type_def)
next
  fix current :: csv_row
  show "isDebit parseFloat current =
      (\<exists>s v. debit current = Some s \<and> s \<noteq> [] \<and> parseFloat s = Some v \<and> v > 0)"
    by (auto simp add: isDebit_def split: option.splits)
qed

text \<open>A file of two rows: the second has a date and no amount, and is dropped.\<close>

theorem csv_import_rows_witness:
  "to_row [''16/03/2024'', ''Transfer'', '''', ''''] \<in> set (map to_row (drop 1
      [[''Date'', ''Description'', ''Debit'', ''Credit''],
       [''15/03/2024'', ''Coffee'', ''5'', ''''],
       [''16/03/2024'', ''Transfer'', '''', '''']]))
   \<and> to_row [''16/03/2024'', ''Transfer'', '''', ''''] \<notin> set (parsedData
      [[''Date'', ''Description'', ''Debit'', ''Credit''],
       [''15/03/2024'', ''Coffee'', ''5'', ''''],
       [''16/03/2024'', ''Transfer'', '''', '''']])
   \<and> truthy (row_date (to_row [''16/03/2024'', ''Transfer'', '''', '''']))
   \<and> handleFileChange sample_toISODate
      [[''Date'', ''Description'', ''Debit'', ''Credit''],
       [''15/03/2024'', ''Coffee'', ''5'', ''''],
       [''16/03/2024'', ''Transfer'', '''', '''']] =
      Inr [\<lparr>row_date = Some ''2024-03-15'', row_description = Some ''Coffee'',
             debit = Some ''5'', credit = Some ''''\<rparr>]
   \<and> default_type sample_parseFloat (to_row [''15/03/2024'', ''Coffee'', ''5'', '''']) = ''expense''"
proof -
  have m: "to_row [''16/03/2024'', ''Transfer'', '''', ''''] \<in> set (map to_row (drop 1
      [[''Date'', ''Description'', ''Debit'', ''Credit''],
       [''15/03/2024'', ''Coffee'', ''5'', ''''],
       [''16/03/2024'', ''Transfer'', '''', '''']]))"
    by simp
  note r = csv_import_rows [OF m, of sample_toISODate sample_parseFloat]
  have 1: "to_row [''16/03/2024'', ''Transfer'', '''', ''''] \<notin> set (parsedData
      [[''Date'', ''Description'', ''Debit'', ''Credit''],
       [''15/03/2024'', ''Coffee'', ''5'', ''''],
       [''16/03/2024'', ''Transfer'', '''', '''']])"
    unfolding r [THEN conjunct1] by (simp add: to_row_def cell_at_def truthy_def)
  have 2: "default_type sample_parseFloat (to_row [''15/03/2024'', ''Coffee'', ''5'', '''']) = ''expense''"
    by (rule r [THEN conjunct2, THEN conjunct2, THEN conjunct1, rule_format, of _ "''5''" 5])
      (simp add: to_row_def cell_at_def sample_parseFloat_def)
  have 3: "truthy (row_date (to_row [''16/03/2024'', ''Transfer'', '''', '''']))"
    by (simp add: to_row_def cell_at_def truthy_def)
  have 4: "handleFileChange sample_toISODate
      [[''Date'', ''Description'', ''Debit'', ''Credit''],
       [''15/03/2024'', ''Coffee'', ''5'', ''''],
       [''16/03/2024'', ''Transfer'', '''', '''']] =
      Inr [\<lparr>row_date = Some ''2024-03-15'', row_description = Some ''Coffee'',
             debit = Some ''5'', credit = Some ''''\<rparr>]"
    by (simp add: handleFileChange_def parsedData_def to_row_def cell_at_def has_data_def
        truthy_def sample_toISODate_def)
  from m 1 2 3 4 show ?thesis by blast
qed

end
